theory Spec2Isabelle
  imports Complex_Main
begin

section \<open>Data model\<close>

text \<open>
  The repository holds three versions of the chat request handler:
  \<^item> \<open>handler_chat\<close>: \<^verbatim>\<open>src/pages/api/chat.ts\<close>, lines 32-183 (codec chosen by
    \<^verbatim>\<open>encoding_for_model\<close>, summarisation above 14000 tokens, generation through an
    \<^verbatim>\<open>LLMChain\<close> whose callbacks write to \<^verbatim>\<open>res\<close>);
  \<^item> \<open>handler_edge\<close>: the same file, lines 221-350 (edge runtime, fixed
    \<^verbatim>\<open>cl100k_base\<close> codec, \<^verbatim>\<open>OpenAIStream\<close> returned as the response body);
  \<^item> \<open>handler_part_000\<close>: \<^verbatim>\<open>src/unnamed/part_000\<close>, lines 31-193 (codec chosen by
    \<^verbatim>\<open>encoding_for_model\<close>, \<^verbatim>\<open>OpenAIStream\<close> relayed by \<^verbatim>\<open>readAndWrite\<close>).

  Values thrown by the code are values of \<open>error\<close>. \<open>UnsupportedModelError\<close> is what
  \<^verbatim>\<open>encoding_for_model\<close> throws for a model id without a codec, \<open>EncodeError\<close> is what
  \<^verbatim>\<open>encoding.encode\<close> throws for a text it refuses (one that holds a special token),
  \<open>TypeError\<close> is what JavaScript throws when a property of \<^verbatim>\<open>undefined\<close> is read,
  \<open>OpenAIError\<close> carries the message of the class the \<^verbatim>\<open>catch\<close> block tests for, and
  \<open>ServiceError\<close> is any other value thrown by a collaborator.
\<close>

datatype error =
    UnsupportedModelError
  | EncodeError string
  | TypeError
  | OpenAIError string
  | ServiceError string

datatype Role = assistant | user

record Message =
  role :: Role
  content :: string

text \<open>The fields of \<^verbatim>\<open>model\<close> that the handlers read; the limit is an integer.\<close>

record OpenAIModel =
  id' :: string
  tokenLimit :: int

text \<open>A value that may be \<^verbatim>\<open>undefined\<close> or \<^verbatim>\<open>null\<close> (the request's temperature).\<close>

datatype 't nullable = Undefined | Null | Value 't

record 't ChatBody =
  model :: OpenAIModel
  messages :: "Message list"
  key :: string
  prompt :: string
  temperature :: "'t nullable"

text \<open>The metadata of a match returned by \<^verbatim>\<open>getMatchesFromEmbeddings\<close>.\<close>

record Metadata =
  url :: string
  text' :: string
  chunk :: string

record ScoredVector =
  metadata :: Metadata

text \<open>
  A codec is its \<^verbatim>\<open>encode\<close> function: the tokens of a text, or the error thrown for a
  text the codec refuses. The handlers call \<^verbatim>\<open>encode\<close> with the text only, so a text
  that holds a special token such as \<^verbatim>\<open><|endoftext|>\<close> is refused.
\<close>

type_synonym token = nat
type_synonym encoder = "string \<Rightarrow> error + token list"

text \<open>
  What \<^verbatim>\<open>reader.read()\<close> settles to: a chunk (\<^verbatim>\<open>{value, done: false}\<close>), the end of
  the stream (\<^verbatim>\<open>{done: true}\<close>) or a rejection. A \<^verbatim>\<open>ReadableStream\<close> is the sequence of
  these results, indexed by the number of reads made before.
\<close>

datatype read_result = ReadValue string | ReadDone | ReadRejected error

type_synonym ReadableStream = "nat \<Rightarrow> read_result"

text \<open>The calls made on the Node response object \<^verbatim>\<open>res\<close>.\<close>

datatype res_call =
    SetHeader string string
  | Write string
  | End
  | Status nat
  | EndWith string

text \<open>What the language model reports to the callback manager of \<open>handler_chat\<close>.\<close>

datatype llm_event = LLMNewToken string | LLMEnd | LLMError error

text \<open>
  The options object given to \<^verbatim>\<open>new ChatOpenAI\<close>. The library's optional
  \<^verbatim>\<open>temperature\<close> option is \<open>None\<close> when the object literal does not have it.
\<close>

record 't ChatOpenAI =
  streaming :: bool
  verbose :: bool
  modelName :: string
  temperature_option :: "'t option"

text \<open>
  The effects of a handler, in program order: calls to collaborators with their
  arguments, calls on \<^verbatim>\<open>res\<close>, and \<^verbatim>\<open>console.error\<close>. The \<^verbatim>\<open>console.log\<close> lines are
  left out, and so are the constructors of the LangChain objects, which call nothing.
  \<open>'v\<close> is the type of an embedding vector, \<open>'t\<close> that of a temperature: the handlers only
  pass such values on.
\<close>

datatype ('v, 't) event =
    PineconeInit
  | EncodingForModel string
  | TiktokenNew
  | InquiryChainCall string "string list"
  | EmbedQuery string
  | GetMatchesFromEmbeddings 'v nat
  | SummarizeLongDocument string string
  | PromptFormat string string "string list" "string list"
  | EncodingFree
  | OpenAIStreamCall OpenAIModel string 't string "Message list"
  | ChainCall "'t ChatOpenAI" string string "Message list" "string list"
  | Res res_call
  | ConsoleError error
  | UnhandledRejection error

text \<open>
  The collaborators, which are not part of the source files: each is a parameter, and
  each call may throw. \<open>codecs\<close> is the registry behind \<^verbatim>\<open>encoding_for_model\<close>,
  \<open>cl100k_base\<close> is the codec the edge handler builds from
  \<^verbatim>\<open>@dqbd/tiktoken/encoders/cl100k_base.json\<close>. \<open>chain_call\<close> is \<^verbatim>\<open>chain.call\<close>: the
  events it reports to the callbacks, and the error it rejects with, if any.
\<close>

record ('v, 't) env =
  pinecone_init :: "error + unit"
  codecs :: "string \<Rightarrow> encoder option"
  cl100k_base :: encoder
  inquiryChain_call :: "string \<Rightarrow> string list \<Rightarrow> error + string"
  embedQuery :: "string \<Rightarrow> error + 'v"
  getMatchesFromEmbeddings :: "'v \<Rightarrow> nat \<Rightarrow> error + ScoredVector list"
  summarizeLongDocument :: "string \<Rightarrow> string \<Rightarrow> error + string"
  promptQA_format :: "string \<Rightarrow> string \<Rightarrow> string list \<Rightarrow> string list \<Rightarrow> error + string"
  OpenAIStream :: "OpenAIModel \<Rightarrow> string \<Rightarrow> 't \<Rightarrow> string \<Rightarrow> Message list \<Rightarrow> error + ReadableStream"
  chain_call :: "'t ChatOpenAI \<Rightarrow> string \<Rightarrow> string \<Rightarrow> Message list \<Rightarrow> string list
                   \<Rightarrow> llm_event list \<times> error option"
  DEFAULT_TEMPERATURE :: 't
  OPENAI_API_KEY :: string

text \<open>
  How a handler ends: with the \<^verbatim>\<open>Response\<close> of status 500 built in the \<^verbatim>\<open>catch\<close> block
  (and its status text, if any); with \<^verbatim>\<open>new Response(stream)\<close> (edge handler); with
  \<^verbatim>\<open>readAndWrite()\<close> started on the reader of the stream (part_000); or after
  \<^verbatim>\<open>chain.call\<close> has resolved (chat.ts).
\<close>

datatype outcome =
    Response500 "string option"
  | ResponseStream ReadableStream
  | Relaying ReadableStream
  | Finished

section \<open>Sequencing of effects\<close>

text \<open>
  A computation is the list of its effects and its result, \<open>Inl\<close> for a thrown value.
  After a throw nothing more of the \<^verbatim>\<open>try\<close> block runs.
\<close>

type_synonym ('e, 'a) io = "'e list \<times> (error + 'a)"

definition io_return :: "'a \<Rightarrow> ('e, 'a) io" where
  "io_return x = ([], Inr x)"

definition io_throw :: "error \<Rightarrow> ('e, 'a) io" where
  "io_throw e = ([], Inl e)"

definition io_call :: "'e \<Rightarrow> error + 'a \<Rightarrow> ('e, 'a) io" where
  "io_call ev r = ([ev], r)"

definition io_bind :: "('e, 'a) io \<Rightarrow> ('a \<Rightarrow> ('e, 'b) io) \<Rightarrow> ('e, 'b) io" where
  "io_bind m f =
     (case m of
        (t, Inl e) \<Rightarrow> (t, Inl e)
      | (t, Inr x) \<Rightarrow> (case f x of (t', r) \<Rightarrow> (t @ t', r)))"

text \<open>
  The \<^verbatim>\<open>catch\<close> block shared by the three handlers: log the error, answer 500, with
  the message as status text when the error is an \<^verbatim>\<open>OpenAIError\<close>.
\<close>

definition statusText :: "error \<Rightarrow> string option" where
  "statusText e = (case e of OpenAIError msg \<Rightarrow> Some msg | _ \<Rightarrow> None)"

definition try_catch :: "(('v, 't) event, outcome) io \<Rightarrow> ('v, 't) event list \<times> outcome" where
  "try_catch m =
     (case m of
        (t, Inl e) \<Rightarrow> (t @ [ConsoleError e], Response500 (statusText e))
      | (t, Inr out) \<Rightarrow> (t, out))"

section \<open>Context deduplication\<close>

text \<open>
  A JavaScript \<^verbatim>\<open>Set\<close> and \<^verbatim>\<open>Map\<close> keep insertion order: a \<^verbatim>\<open>Set\<close> is the list of its
  elements and a \<^verbatim>\<open>Map\<close> the list of its entries, in the order \<^verbatim>\<open>Array.from\<close> yields.
\<close>

definition Set_add :: "'a list \<Rightarrow> 'a \<Rightarrow> 'a list" where
  "Set_add s x = (if x \<in> set s then s else s @ [x])"

definition new_Set :: "'a list \<Rightarrow> 'a list" where
  "new_Set xs = foldl Set_add [] xs"

definition Map_has :: "('k \<times> 'a) list \<Rightarrow> 'k \<Rightarrow> bool" where
  "Map_has m k = (k \<in> set (map fst m))"

fun Map_set :: "('k \<times> 'a) list \<Rightarrow> 'k \<Rightarrow> 'a \<Rightarrow> ('k \<times> 'a) list" where
  "Map_set [] k v = [(k, v)]"
| "Map_set (p # ps) k v = (if fst p = k then (k, v) # ps else p # Map_set ps k v)"

text \<open>\<^verbatim>\<open>urls\<close>: chat.ts 50-60 and 260-270, part_000 70-80.\<close>

definition urls :: "ScoredVector list \<Rightarrow> string list" where
  "urls matches = new_Set (map (\<lambda>match. url (metadata match)) matches)"

text \<open>\<^verbatim>\<open>fullDocuments\<close>: chat.ts 64-75 and 275-286, part_000 84-95.\<close>

definition fullDocuments_reducer ::
  "(string \<times> string) list \<Rightarrow> ScoredVector \<Rightarrow> (string \<times> string) list" where
  "fullDocuments_reducer map' match =
     (if \<not> Map_has map' (url (metadata match))
      then Map_set map' (url (metadata match)) (text' (metadata match))
      else map')"

definition fullDocuments_map :: "ScoredVector list \<Rightarrow> (string \<times> string) list" where
  "fullDocuments_map matches = foldl fullDocuments_reducer [] matches"

definition fullDocuments :: "ScoredVector list \<Rightarrow> string list" where
  "fullDocuments matches = map snd (fullDocuments_map matches)"

text \<open>\<^verbatim>\<open>chunkedDocs\<close>: computed by every handler and not used afterwards.\<close>

definition chunkedDocs :: "ScoredVector list \<Rightarrow> string list" where
  "chunkedDocs matches = new_Set (map (\<lambda>match. chunk (metadata match)) matches)"

text \<open>
  The first occurrences of a list, as the specification words it: one element per
  distinct value, ordered by first occurrence.
\<close>

fun first_occurrences :: "'a list \<Rightarrow> 'a list" where
  "first_occurrences [] = []"
| "first_occurrences (x # xs) = x # filter (\<lambda>y. y \<noteq> x) (first_occurrences xs)"

text \<open>\<^verbatim>\<open>Array.prototype.join('\n')\<close> on an array of strings.\<close>

fun join_newline :: "string list \<Rightarrow> string" where
  "join_newline [] = []"
| "join_newline [x] = x"
| "join_newline (x # y # ys) = x @ [CHR 0x0A] @ join_newline (y # ys)"

section \<open>Summarisation threshold and temperature\<close>

text \<open>
  \<^verbatim>\<open>documentTokens\<close>, chat.ts 77-82: the loop over the documents, with the sum so far
  as its state; it ends at the first document the codec refuses.
\<close>

fun documentTokens_loop :: "encoder \<Rightarrow> string list \<Rightarrow> int \<Rightarrow> error + int" where
  "documentTokens_loop encode [] n = Inr n"
| "documentTokens_loop encode (doc # docs) n =
     (case encode doc of
        Inl e \<Rightarrow> Inl e
      | Inr tokens \<Rightarrow> documentTokens_loop encode docs (n + int (length tokens)))"

definition documentTokens :: "encoder \<Rightarrow> string list \<Rightarrow> error + int" where
  "documentTokens encode docs = documentTokens_loop encode docs 0"

text \<open>
  \<^verbatim>\<open>temperatureToUse\<close>, chat.ts 106-109 and 301-304, part_000 109-112:
  \<^verbatim>\<open>== null\<close> holds of \<^verbatim>\<open>null\<close> and of \<^verbatim>\<open>undefined\<close> and of nothing else.
\<close>

definition temperatureToUse :: "'t \<Rightarrow> 't nullable \<Rightarrow> 't" where
  "temperatureToUse default_temperature t =
     (case t of Undefined \<Rightarrow> default_temperature | Null \<Rightarrow> default_temperature | Value v \<Rightarrow> v)"

section \<open>Selection of the conversation turns\<close>

text \<open>
  The loop of chat.ts 129-138 and 326-335 and part_000 136-145, with \<open>i\<close>,
  \<open>tokenCount\<close> and the list built so far as its state. Reading
  \<^verbatim>\<open>messages[i].content\<close> outside the array throws a \<^verbatim>\<open>TypeError\<close>. Each turn is
  encoded before it is tested against the budget, so the loop ends with the error of the
  codec when it comes to a turn the codec refuses.
\<close>

function select_loop ::
  "encoder \<Rightarrow> Message list \<Rightarrow> int \<Rightarrow> int \<Rightarrow> int \<Rightarrow> Message list
     \<Rightarrow> error + (int \<times> Message list)" where
  "select_loop encode msgs limit i tokenCount messagesToSend =
     (if 0 \<le> i then
        (if nat i < length msgs then
           (case encode (content (msgs ! nat i)) of
              Inl e \<Rightarrow> Inl e
            | Inr tokens \<Rightarrow>
                (if tokenCount + int (length tokens) + 1000 > limit
                 then Inr (tokenCount, messagesToSend)
                 else select_loop encode msgs limit (i - 1)
                        (tokenCount + int (length tokens))
                        (msgs ! nat i # messagesToSend)))
         else Inl TypeError)
      else Inr (tokenCount, messagesToSend))"
  by pat_completeness auto
termination
  by (relation "measure (\<lambda>(encode, msgs, limit, i, tokenCount, acc). nat (i + 1))") auto

text \<open>
  The loop as the handlers start it: \<open>i = messages.length - 1\<close>, \<open>tokenCount\<close> the
  number of tokens of the rendered prompt, and no turn selected.
\<close>

definition select :: "encoder \<Rightarrow> Message list \<Rightarrow> int \<Rightarrow> int \<Rightarrow> error + (int \<times> Message list)" where
  "select encode msgs limit prompt_tokens_length =
     select_loop encode msgs limit (int (length msgs) - 1) prompt_tokens_length []"

text \<open>
  The number of tokens of a turn the codec encodes (and 0 for a turn it refuses, which
  the loop never counts).
\<close>

definition turn_tokens :: "encoder \<Rightarrow> Message \<Rightarrow> int" where
  "turn_tokens encode m =
     (case encode (content m) of Inl e \<Rightarrow> 0 | Inr tokens \<Rightarrow> int (length tokens))"

text \<open>The codec encodes the content of a turn.\<close>

definition accepts :: "encoder \<Rightarrow> Message \<Rightarrow> bool" where
  "accepts encode m = (case encode (content m) of Inl e \<Rightarrow> False | Inr tokens \<Rightarrow> True)"

definition total_tokens :: "encoder \<Rightarrow> Message list \<Rightarrow> int" where
  "total_tokens encode ms = sum_list (map (turn_tokens encode) ms)"

section \<open>Streaming relay\<close>

text \<open>
  \<^verbatim>\<open>readAndWrite\<close>, part_000 167-184. \<open>n\<close> counts the reads made so far and \<open>out\<close> is
  what has been done to \<^verbatim>\<open>res\<close>. The \<^verbatim>\<open>catch\<close> of line 180 is attached to the first
  invocation only: the recursive invocation of line 177 is neither awaited nor
  returned, so a rejection of a later read is left unhandled and \<^verbatim>\<open>res\<close> stays open.
  A stream that never ends makes the recursion run forever: the result is \<open>None\<close>.
\<close>

partial_function (option) readAndWrite ::
  "ReadableStream \<Rightarrow> nat \<Rightarrow> ('v, 't) event list \<Rightarrow> ('v, 't) event list option" where
  "readAndWrite stream n out =
     (case stream n of
        ReadDone \<Rightarrow> Some (out @ [Res End])
      | ReadValue v \<Rightarrow> readAndWrite stream (Suc n) (out @ [Res (Write v)])
      | ReadRejected e \<Rightarrow>
          (if n = 0
           then Some (out @ [ConsoleError e, Res (Status 500),
                             Res (EndWith ''An error occurred while streaming data.'')])
           else Some (out @ [UnhandledRejection e])))"

text \<open>The callbacks of chat.ts 153-161; no callback is registered for an error.\<close>

fun callbackManager :: "llm_event \<Rightarrow> res_call list" where
  "callbackManager (LLMNewToken t) = [Write t]"
| "callbackManager LLMEnd = [End]"
| "callbackManager (LLMError e) = []"

section \<open>The handlers\<close>

text \<open>The collaborator calls, each recorded with its arguments.\<close>

definition initPineconeClient :: "('v, 't) env \<Rightarrow> (('v, 't) event, unit) io" where
  "initPineconeClient env = io_call PineconeInit (pinecone_init env)"

definition encoding_for_model :: "('v, 't) env \<Rightarrow> string \<Rightarrow> (('v, 't) event, encoder) io" where
  "encoding_for_model env model_id =
     io_call (EncodingForModel model_id)
       (case codecs env model_id of None \<Rightarrow> Inl UnsupportedModelError | Some enc \<Rightarrow> Inr enc)"

definition new_Tiktoken :: "('v, 't) env \<Rightarrow> (('v, 't) event, encoder) io" where
  "new_Tiktoken env = io_call TiktokenNew (Inr (cl100k_base env))"

definition inquiryChain :: "('v, 't) env \<Rightarrow> string \<Rightarrow> string list \<Rightarrow> (('v, 't) event, string) io" where
  "inquiryChain env userPrompt conversationHistory =
     io_call (InquiryChainCall userPrompt conversationHistory)
       (inquiryChain_call env userPrompt conversationHistory)"

definition embedder_embedQuery :: "('v, 't) env \<Rightarrow> string \<Rightarrow> (('v, 't) event, 'v) io" where
  "embedder_embedQuery env q = io_call (EmbedQuery q) (embedQuery env q)"

definition getMatches :: "('v, 't) env \<Rightarrow> 'v \<Rightarrow> nat \<Rightarrow> (('v, 't) event, ScoredVector list) io" where
  "getMatches env embeddings topK =
     io_call (GetMatchesFromEmbeddings embeddings topK) (getMatchesFromEmbeddings env embeddings topK)"

definition summarize :: "('v, 't) env \<Rightarrow> string \<Rightarrow> string \<Rightarrow> (('v, 't) event, string) io" where
  "summarize env document inquiry =
     io_call (SummarizeLongDocument document inquiry) (summarizeLongDocument env document inquiry)"

definition promptQA ::
  "('v, 't) env \<Rightarrow> string \<Rightarrow> string \<Rightarrow> string list \<Rightarrow> string list \<Rightarrow> (('v, 't) event, string) io" where
  "promptQA env summaries question conversationHistory urls' =
     io_call (PromptFormat summaries question conversationHistory urls')
       (promptQA_format env summaries question conversationHistory urls')"

definition encoding_free :: "(('v, 't) event, unit) io" where
  "encoding_free = io_call EncodingFree (Inr ())"

definition call_OpenAIStream ::
  "('v, 't) env \<Rightarrow> OpenAIModel \<Rightarrow> string \<Rightarrow> 't \<Rightarrow> string \<Rightarrow> Message list
     \<Rightarrow> (('v, 't) event, ReadableStream) io" where
  "call_OpenAIStream env m p t k ms =
     io_call (OpenAIStreamCall m p t k ms) (OpenAIStream env m p t k ms)"

definition res_do :: "res_call \<Rightarrow> (('v, 't) event, unit) io" where
  "res_do c = io_call (Res c) (Inr ())"

text \<open>
  \<^verbatim>\<open>chain.call\<close> of chat.ts 168-173: while it runs, the callbacks of lines 153-161 act
  on \<^verbatim>\<open>res\<close> for each event the model reports; then it resolves or rejects.
\<close>

definition call_chain ::
  "('v, 't) env \<Rightarrow> 't ChatOpenAI \<Rightarrow> string \<Rightarrow> string \<Rightarrow> Message list \<Rightarrow> string list
     \<Rightarrow> (('v, 't) event, unit) io" where
  "call_chain env chat summaries question conversationHistory urls' =
     (case chain_call env chat summaries question conversationHistory urls' of
        (evs, failure) \<Rightarrow>
          (ChainCall chat summaries question conversationHistory urls'
             # map Res (concat (map callbackManager evs)),
           (case failure of None \<Rightarrow> Inr () | Some e \<Rightarrow> Inl e)))"

text \<open>\<^verbatim>\<open>messages[messages.length-1].content\<close>, chat.ts 44 and 87.\<close>

definition last_content :: "Message list \<Rightarrow> (('v, 't) event, string) io" where
  "last_content msgs = (if msgs = [] then io_throw TypeError else io_return (content (last msgs)))"

text \<open>
  The local variables of a handler that are alive when the selection loop starts.
\<close>

record 't locals =
  l_encoding :: encoder
  l_matches :: "ScoredVector list"
  l_temperatureToUse :: 't
  l_promptToSend :: string

text \<open>
  Each handler is written in two parts: \<open>assemble_\<close> is the \<^verbatim>\<open>try\<close> block up to and
  including \<^verbatim>\<open>promptQA.format\<close>, the handler is the whole function: it goes on with
  \<^verbatim>\<open>encoding.encode(promptToSend)\<close>, the selection loop, \<^verbatim>\<open>encoding.free()\<close> and the
  generation. \<open>pinecone\<close> says whether the module-level client is already set.
\<close>

text \<open>part_000, lines 33-129.\<close>

definition assemble_part_000 ::
  "('v, 't) env \<Rightarrow> bool \<Rightarrow> 't ChatBody \<Rightarrow> (('v, 't) event, 't locals) io" where
  "assemble_part_000 env pinecone body =
     io_bind (if \<not> pinecone then initPineconeClient env else io_return ()) (\<lambda>_.
     io_bind (encoding_for_model env (id' (model body))) (\<lambda>encoding.
     io_bind (inquiryChain env (prompt body) (map content (messages body))) (\<lambda>inquiry.
     io_bind (embedder_embedQuery env inquiry) (\<lambda>embeddings.
     io_bind (getMatches env embeddings 3) (\<lambda>matches.
     io_bind (summarize env (join_newline (fullDocuments matches)) inquiry) (\<lambda>summary.
     io_bind (promptQA env summary (prompt body) (map content (messages body)) (urls matches))
       (\<lambda>promptToSend.
     io_return \<lparr> l_encoding = encoding, l_matches = matches,
                 l_temperatureToUse = temperatureToUse (DEFAULT_TEMPERATURE env) (temperature body),
                 l_promptToSend = promptToSend \<rparr>)))))))"

text \<open>part_000, lines 31-193.\<close>

definition handler_part_000 ::
  "('v, 't) env \<Rightarrow> bool \<Rightarrow> 't ChatBody \<Rightarrow> ('v, 't) event list \<times> outcome" where
  "handler_part_000 env pinecone body =
     try_catch
      (io_bind (assemble_part_000 env pinecone body) (\<lambda>l.
       io_bind ([], l_encoding l (l_promptToSend l)) (\<lambda>prompt_tokens.
       io_bind ([], select (l_encoding l) (messages body) (tokenLimit (model body))
                      (int (length prompt_tokens)))
         (\<lambda>(tokenCount, messagesToSend).
       io_bind encoding_free (\<lambda>_.
       io_bind (call_OpenAIStream env (model body) (l_promptToSend l) (l_temperatureToUse l)
                  (OPENAI_API_KEY env) messagesToSend) (\<lambda>stream.
       io_bind (res_do (SetHeader ''Content-Type'' ''text/plain'')) (\<lambda>_.
       io_bind (res_do (SetHeader ''Transfer-Encoding'' ''chunked'')) (\<lambda>_.
       io_return (Relaying stream)))))))))"

text \<open>chat.ts, lines 223-319 (edge runtime).\<close>

definition assemble_edge ::
  "('v, 't) env \<Rightarrow> bool \<Rightarrow> 't ChatBody \<Rightarrow> (('v, 't) event, 't locals) io" where
  "assemble_edge env pinecone body =
     io_bind (if \<not> pinecone then initPineconeClient env else io_return ()) (\<lambda>_.
     io_bind (new_Tiktoken env) (\<lambda>encoding.
     io_bind (inquiryChain env (prompt body) (map content (messages body))) (\<lambda>inquiry.
     io_bind (embedder_embedQuery env inquiry) (\<lambda>embeddings.
     io_bind (getMatches env embeddings 3) (\<lambda>matches.
     io_bind (summarize env (join_newline (fullDocuments matches)) inquiry) (\<lambda>summary.
     io_bind (promptQA env summary (prompt body) (map content (messages body)) (urls matches))
       (\<lambda>promptToSend.
     io_return \<lparr> l_encoding = encoding, l_matches = matches,
                 l_temperatureToUse = temperatureToUse (DEFAULT_TEMPERATURE env) (temperature body),
                 l_promptToSend = promptToSend \<rparr>)))))))"

text \<open>chat.ts, lines 221-350 (edge runtime).\<close>

definition handler_edge ::
  "('v, 't) env \<Rightarrow> bool \<Rightarrow> 't ChatBody \<Rightarrow> ('v, 't) event list \<times> outcome" where
  "handler_edge env pinecone body =
     try_catch
      (io_bind (assemble_edge env pinecone body) (\<lambda>l.
       io_bind ([], l_encoding l (l_promptToSend l)) (\<lambda>prompt_tokens.
       io_bind ([], select (l_encoding l) (messages body) (tokenLimit (model body))
                      (int (length prompt_tokens)))
         (\<lambda>(tokenCount, messagesToSend).
       io_bind encoding_free (\<lambda>_.
       io_bind (call_OpenAIStream env (model body) (l_promptToSend l) (l_temperatureToUse l)
                  (key body) messagesToSend) (\<lambda>stream.
       io_return (ResponseStream stream)))))))"

text \<open>
  chat.ts, lines 34-120. The value of \<^verbatim>\<open>summary\<close> (line 85) is not read again: line
  116 passes \<^verbatim>\<open>fullDocuments!.join('\n')\<close>.
\<close>

definition assemble_chat ::
  "('v, 't) env \<Rightarrow> bool \<Rightarrow> 't ChatBody \<Rightarrow> (('v, 't) event, 't locals) io" where
  "assemble_chat env pinecone body =
     io_bind (if \<not> pinecone then initPineconeClient env else io_return ()) (\<lambda>_.
     io_bind (encoding_for_model env (id' (model body))) (\<lambda>encoding.
     io_bind (last_content (messages body)) (\<lambda>question.
     io_bind (embedder_embedQuery env question) (\<lambda>embeddings.
     io_bind (getMatches env embeddings 3) (\<lambda>matches.
     io_bind ([], documentTokens encoding (fullDocuments matches)) (\<lambda>documentTokens'.
     io_bind (if documentTokens' > 14000
              then io_bind (last_content (messages body)) (\<lambda>question'.
                   io_bind (summarize env (join_newline (fullDocuments matches)) question')
                     (\<lambda>summary. io_return ()))
              else io_return ()) (\<lambda>_.
     io_bind (promptQA env (join_newline (fullDocuments matches)) (prompt body)
                (map content (messages body)) (urls matches)) (\<lambda>promptToSend.
     io_return \<lparr> l_encoding = encoding, l_matches = matches,
                 l_temperatureToUse = temperatureToUse (DEFAULT_TEMPERATURE env) (temperature body),
                 l_promptToSend = promptToSend \<rparr>))))))))"

text \<open>
  chat.ts, lines 32-183. \<^verbatim>\<open>temperatureToUse\<close> (line 106) is not read again: the
  options of lines 149-162 have no temperature, and the model name is a constant.
\<close>

definition handler_chat ::
  "('v, 't) env \<Rightarrow> bool \<Rightarrow> 't ChatBody \<Rightarrow> ('v, 't) event list \<times> outcome" where
  "handler_chat env pinecone body =
     try_catch
      (io_bind (assemble_chat env pinecone body) (\<lambda>l.
       io_bind ([], l_encoding l (l_promptToSend l)) (\<lambda>prompt_tokens.
       io_bind ([], select (l_encoding l) (messages body) (tokenLimit (model body))
                      (int (length prompt_tokens)))
         (\<lambda>(tokenCount, conversationHistory).
       io_bind encoding_free (\<lambda>_.
       io_bind (call_chain env
                  \<lparr> streaming = True, verbose = True, modelName = ''gpt-3.5-turbo-16k'',
                    temperature_option = None \<rparr>
                  (join_newline (fullDocuments (l_matches l))) (l_promptToSend l)
                  conversationHistory (urls (l_matches l))) (\<lambda>_.
       io_return Finished))))))"

section \<open>Sample collaborators and requests\<close>

text \<open>
  A small environment on which the definitions can be run: a codec with one token for
  each character, which refuses a text that holds \<^verbatim>\<open><|endoftext|>\<close>, registered for one
  model id; an index that answers every query with the same three matches, two of them
  from the same source; a model that streams four chunks.
\<close>

fun starts_with :: "string \<Rightarrow> string \<Rightarrow> bool" where
  "starts_with [] s = True"
| "starts_with (c # cs) [] = False"
| "starts_with (c # cs) (d # ds) = (c = d \<and> starts_with cs ds)"

fun holds :: "string \<Rightarrow> string \<Rightarrow> bool" where
  "holds w [] = (w = [])"
| "holds w (d # ds) = (starts_with w (d # ds) \<or> holds w ds)"

definition sample_encode :: encoder where
  "sample_encode s =
     (if holds ''<|endoftext|>'' s then Inl (EncodeError ''special token'')
      else Inr (map of_char s))"

definition sample_matches :: "ScoredVector list" where
  "sample_matches =
     [\<lparr> metadata = \<lparr> url = ''a.html'', text' = ''alpha'', chunk = ''al'' \<rparr> \<rparr>,
      \<lparr> metadata = \<lparr> url = ''b.html'', text' = ''beta'', chunk = ''be'' \<rparr> \<rparr>,
      \<lparr> metadata = \<lparr> url = ''a.html'', text' = ''again'', chunk = ''ag'' \<rparr> \<rparr>]"

definition stream_of :: "string list \<Rightarrow> ReadableStream" where
  "stream_of cs n = (if n < length cs then ReadValue (cs ! n) else ReadDone)"

definition sample_chunks :: "string list" where
  "sample_chunks = [''The'', '' answer'', '' is'', '' 4.'']"

definition sample_env :: "(nat list, real) env" where
  "sample_env =
     \<lparr> pinecone_init = Inr (),
       codecs = (\<lambda>model_id. if model_id = ''gpt-3.5-turbo'' then Some sample_encode else None),
       cl100k_base = sample_encode,
       inquiryChain_call = (\<lambda>userPrompt history. Inr userPrompt),
       embedQuery = (\<lambda>q. Inr [length q]),
       getMatchesFromEmbeddings = (\<lambda>v k. Inr (take k sample_matches)),
       summarizeLongDocument = (\<lambda>document inquiry. Inr ''summary''),
       promptQA_format = (\<lambda>summaries question history us.
                            Inr (summaries @ question @ concat history)),
       OpenAIStream = (\<lambda>m p t k ms. Inr (stream_of sample_chunks)),
       chain_call = (\<lambda>chat summaries question history us.
                       (map LLMNewToken sample_chunks @ [LLMEnd], None)),
       DEFAULT_TEMPERATURE = 1,
       OPENAI_API_KEY = ''sk'' \<rparr>"

definition sample_messages :: "Message list" where
  "sample_messages =
     [\<lparr> role = user, content = ''hello'' \<rparr>,
      \<lparr> role = assistant, content = ''hi'' \<rparr>,
      \<lparr> role = user, content = ''2+2?'' \<rparr>]"

definition sample_body :: "real ChatBody" where
  "sample_body =
     \<lparr> model = \<lparr> id' = ''gpt-3.5-turbo'', tokenLimit = 4000 \<rparr>,
       messages = sample_messages, key = ''k'', prompt = ''2+2?'', temperature = Value (1/5) \<rparr>"

text \<open>The same request under a limit that leaves room for part of the history only.\<close>

definition tight_body :: "real ChatBody" where
  "tight_body = sample_body \<lparr> model := \<lparr> id' = ''gpt-3.5-turbo'', tokenLimit = 1030 \<rparr> \<rparr>"

text \<open>A request that names a model id for which no codec is registered.\<close>

definition unregistered_body :: "real ChatBody" where
  "unregistered_body = sample_body \<lparr> model := \<lparr> id' = ''my-model'', tokenLimit = 4000 \<rparr> \<rparr>"

text \<open>A history and a request whose newest turn holds a special token.\<close>

definition special_messages :: "Message list" where
  "special_messages =
     [\<lparr> role = user, content = ''hello'' \<rparr>,
      \<lparr> role = user, content = ''<|endoftext|>'' \<rparr>]"



text \<open>An index whose only match is a document of 14001 tokens.\<close>

definition long_document :: string where
  "long_document = replicate 14001 (CHR ''a'')"

definition long_matches :: "ScoredVector list" where
  "long_matches = [\<lparr> metadata = \<lparr> url = ''a.html'', text' = long_document, chunk = ''al'' \<rparr> \<rparr>]"

definition long_env :: "(nat list, real) env" where
  "long_env = sample_env \<lparr> getMatchesFromEmbeddings := (\<lambda>v k. Inr long_matches) \<rparr>"

section \<open>Properties of the selection loop\<close>

declare select_loop.simps [simp del]

lemma turn_tokens_nonneg: "0 \<le> turn_tokens encode m"
  by (simp add: turn_tokens_def split: sum.splits)

lemma total_tokens_nonneg: "0 \<le> total_tokens encode ms"
  by (induction ms) (simp_all add: total_tokens_def turn_tokens_nonneg)

lemma total_tokens_snoc:
  "total_tokens encode (xs @ [m]) = total_tokens encode xs + turn_tokens encode m"
  by (simp add: total_tokens_def)

lemma accepts_iff: "accepts encode m \<longleftrightarrow> (\<exists>tokens. encode (content m) = Inr tokens)"
  by (simp add: accepts_def split: sum.splits)

lemma turn_tokens_Inr: "encode (content m) = Inr tokens \<Longrightarrow> turn_tokens encode m = int (length tokens)"
  by (simp add: turn_tokens_def)

lemma select_loop_step:
  assumes "n < length msgs"
  shows "select_loop encode msgs L (int n) tc acc =
     (case encode (content (msgs ! n)) of
        Inl e \<Rightarrow> Inl e
      | Inr tokens \<Rightarrow>
          (if tc + turn_tokens encode (msgs ! n) + 1000 > L then Inr (tc, acc)
           else select_loop encode msgs L (int n - 1) (tc + turn_tokens encode (msgs ! n))
                  (msgs ! n # acc)))"
  using assms by (subst select_loop.simps) (simp add: turn_tokens_def split: sum.splits)

lemma select_loop_done: "select_loop encode msgs L (- 1) tc acc = Inr (tc, acc)"
  by (subst select_loop.simps) simp

text \<open>
  The loop started at index \<open>n - 1\<close> has met the turns \<open>k - 1, \<dots>, n - 1\<close> for some \<open>k\<close>.
  The codec encoded each of the turns \<open>k, \<dots>, n - 1\<close> and each passed the test of line 133
  when it was met. Turn \<open>k - 1\<close>, if there is one, either failed the test, and the loop
  returns the turns from \<open>k\<close> on, or was refused by the codec, and the loop throws.
\<close>

lemma select_loop_char:
  "n \<le> length msgs \<Longrightarrow>
   \<exists>k\<le>n.
       (\<forall>j. k \<le> j \<and> j < n \<longrightarrow>
           accepts encode (msgs ! j) \<and> tc + total_tokens encode (drop j (take n msgs)) + 1000 \<le> L)
     \<and> (0 < k \<and> accepts encode (msgs ! (k - 1)) \<longrightarrow>
           L < tc + total_tokens encode (drop (k - 1) (take n msgs)) + 1000)
     \<and> select_loop encode msgs L (int n - 1) tc acc =
         (if k = 0 then Inr (tc + total_tokens encode (drop k (take n msgs)), drop k (take n msgs) @ acc)
          else case encode (content (msgs ! (k - 1))) of
                 Inl e \<Rightarrow> Inl e
               | Inr tokens \<Rightarrow>
                   Inr (tc + total_tokens encode (drop k (take n msgs)), drop k (take n msgs) @ acc))"
proof (induction n arbitrary: tc acc)
  case 0
  show ?case by (simp add: select_loop_done total_tokens_def)
next
  case (Suc n)
  then have n: "n < length msgs" by simp
  let ?m = "msgs ! n"
  have tk: "take (Suc n) msgs = take n msgs @ [?m]"
    using n by (simp add: take_Suc_conv_app_nth)
  have len: "length (take n msgs) = n" using n by simp
  have dn: "drop n (take (Suc n) msgs) = [?m]" using n tk by simp
  have dS: "drop (Suc n) (take (Suc n) msgs) = []" using n by simp
  show ?case
  proof (cases "encode (content ?m)")
    case (Inl e)
    then have na: "\<not> accepts encode ?m" by (simp add: accepts_def)
    have "select_loop encode msgs L (int (Suc n) - 1) tc acc = Inl e"
      using select_loop_step[OF n, of encode L tc acc] Inl by simp
    then show ?thesis using Inl na dS
      by (intro exI[of _ "Suc n"]) auto
  next
    case (Inr tokens)
    then have ac: "accepts encode ?m" by (simp add: accepts_def)
    show ?thesis
    proof (cases "tc + turn_tokens encode ?m + 1000 > L")
      case True
      have "select_loop encode msgs L (int (Suc n) - 1) tc acc = Inr (tc, acc)"
        using select_loop_step[OF n, of encode L tc acc] True Inr by simp
      then show ?thesis using True Inr dn dS
        by (intro exI[of _ "Suc n"]) (auto simp: total_tokens_def)
    next
      case False
      from Suc.IH[of "tc + turn_tokens encode ?m" "?m # acc"] n
      obtain k where k: "k \<le> n"
        and a: "\<forall>j. k \<le> j \<and> j < n \<longrightarrow> accepts encode (msgs ! j) \<and>
                 tc + turn_tokens encode ?m + total_tokens encode (drop j (take n msgs)) + 1000 \<le> L"
        and f: "0 < k \<and> accepts encode (msgs ! (k - 1)) \<longrightarrow>
                 L < tc + turn_tokens encode ?m + total_tokens encode (drop (k - 1) (take n msgs)) + 1000"
        and r: "select_loop encode msgs L (int n - 1) (tc + turn_tokens encode ?m) (?m # acc) =
           (if k = 0 then Inr (tc + turn_tokens encode ?m + total_tokens encode (drop k (take n msgs)),
                               drop k (take n msgs) @ ?m # acc)
            else case encode (content (msgs ! (k - 1))) of
                   Inl e \<Rightarrow> Inl e
                 | Inr tokens \<Rightarrow>
                     Inr (tc + turn_tokens encode ?m + total_tokens encode (drop k (take n msgs)),
                          drop k (take n msgs) @ ?m # acc))"
        by auto
      have dr: "\<And>j. j \<le> n \<Longrightarrow> drop j (take (Suc n) msgs) = drop j (take n msgs) @ [?m]"
        using tk len by simp
      have tt: "\<And>j. j \<le> n \<Longrightarrow> total_tokens encode (drop j (take (Suc n) msgs)) =
                 total_tokens encode (drop j (take n msgs)) + turn_tokens encode ?m"
        using dr by (simp add: total_tokens_def)
      have st: "select_loop encode msgs L (int (Suc n) - 1) tc acc =
                select_loop encode msgs L (int n - 1) (tc + turn_tokens encode ?m) (?m # acc)"
        using select_loop_step[OF n, of encode L tc acc] False Inr by simp
      have R: "select_loop encode msgs L (int (Suc n) - 1) tc acc =
           (if k = 0 then Inr (tc + total_tokens encode (drop k (take (Suc n) msgs)),
                               drop k (take (Suc n) msgs) @ acc)
            else case encode (content (msgs ! (k - 1))) of
                   Inl e \<Rightarrow> Inl e
                 | Inr tokens \<Rightarrow>
                     Inr (tc + total_tokens encode (drop k (take (Suc n) msgs)),
                          drop k (take (Suc n) msgs) @ acc))"
      proof -
        have e1: "drop k (take (Suc n) msgs) @ acc = drop k (take n msgs) @ ?m # acc"
          using dr[OF k] by simp
        have e2: "tc + total_tokens encode (drop k (take (Suc n) msgs)) =
                  tc + turn_tokens encode ?m + total_tokens encode (drop k (take n msgs))"
          using tt[OF k] by simp
        show ?thesis by (simp only: st r e1 e2)
      qed
      have A: "\<forall>j. k \<le> j \<and> j < Suc n \<longrightarrow> accepts encode (msgs ! j) \<and>
                     tc + total_tokens encode (drop j (take (Suc n) msgs)) + 1000 \<le> L"
      proof (intro allI impI)
        fix j assume j: "k \<le> j \<and> j < Suc n"
        show "accepts encode (msgs ! j) \<and>
              tc + total_tokens encode (drop j (take (Suc n) msgs)) + 1000 \<le> L"
        proof (cases "j < n")
          case True
          then have "accepts encode (msgs ! j) \<and>
             tc + turn_tokens encode ?m + total_tokens encode (drop j (take n msgs)) + 1000 \<le> L"
            using a j by blast
          then show ?thesis using tt[of j] True by simp
        next
          case False
          then have "j = n" using j by simp
          then show ?thesis
            using \<open>\<not> L < tc + turn_tokens encode ?m + 1000\<close> dn ac
            by (simp add: total_tokens_def)
        qed
      qed
      have F: "0 < k \<and> accepts encode (msgs ! (k - 1)) \<longrightarrow>
                     L < tc + total_tokens encode (drop (k - 1) (take (Suc n) msgs)) + 1000"
        using f k tt[of "k - 1"] by auto
      show ?thesis using k A F R by (intro exI[of _ k]) simp
    qed
  qed
qed

lemma select_char:
  "\<exists>k\<le>length msgs.
       (\<forall>j. k \<le> j \<and> j < length msgs \<longrightarrow>
           accepts encode (msgs ! j) \<and> p + total_tokens encode (drop j msgs) + 1000 \<le> L)
     \<and> (0 < k \<and> accepts encode (msgs ! (k - 1)) \<longrightarrow>
           L < p + total_tokens encode (drop (k - 1) msgs) + 1000)
     \<and> select encode msgs L p =
         (if k = 0 then Inr (p + total_tokens encode (drop k msgs), drop k msgs)
          else case encode (content (msgs ! (k - 1))) of
                 Inl e \<Rightarrow> Inl e
               | Inr tokens \<Rightarrow> Inr (p + total_tokens encode (drop k msgs), drop k msgs))"
  unfolding select_def
  using select_loop_char[of "length msgs" msgs encode p L "[]"]
  by (simp only: take_all order_refl append_Nil2)

text \<open>The index \<open>k\<close> is determined by these conditions.\<close>

lemma select_unique:
  assumes k: "k \<le> length msgs"
    and pass: "\<forall>j. k \<le> j \<and> j < length msgs \<longrightarrow>
                 accepts encode (msgs ! j) \<and> p + total_tokens encode (drop j msgs) + 1000 \<le> L"
    and fail: "0 < k \<and> accepts encode (msgs ! (k - 1)) \<longrightarrow>
                 L < p + total_tokens encode (drop (k - 1) msgs) + 1000"
  shows "select encode msgs L p =
         (if k = 0 then Inr (p + total_tokens encode (drop k msgs), drop k msgs)
          else case encode (content (msgs ! (k - 1))) of
                 Inl e \<Rightarrow> Inl e
               | Inr tokens \<Rightarrow> Inr (p + total_tokens encode (drop k msgs), drop k msgs))"
proof -
  obtain k' where k': "k' \<le> length msgs"
    and pass': "\<forall>j. k' \<le> j \<and> j < length msgs \<longrightarrow>
                 accepts encode (msgs ! j) \<and> p + total_tokens encode (drop j msgs) + 1000 \<le> L"
    and fail': "0 < k' \<and> accepts encode (msgs ! (k' - 1)) \<longrightarrow>
                 L < p + total_tokens encode (drop (k' - 1) msgs) + 1000"
    and r: "select encode msgs L p =
         (if k' = 0 then Inr (p + total_tokens encode (drop k' msgs), drop k' msgs)
          else case encode (content (msgs ! (k' - 1))) of
                 Inl e \<Rightarrow> Inl e
               | Inr tokens \<Rightarrow> Inr (p + total_tokens encode (drop k' msgs), drop k' msgs))"
    using select_char[of msgs encode p L] by blast
  have "k' = k"
  proof (rule ccontr)
    assume ne: "k' \<noteq> k"
    show False
    proof (cases "k' < k")
      case True
      then have b: "k' \<le> k - 1 \<and> k - 1 < length msgs" and "0 < k" using k by auto
      from pass' b have "accepts encode (msgs ! (k - 1))"
        and "p + total_tokens encode (drop (k - 1) msgs) + 1000 \<le> L" by blast+
      then show False using fail \<open>0 < k\<close> by simp
    next
      case False
      then have b: "k \<le> k' - 1 \<and> k' - 1 < length msgs" and "0 < k'" using ne k' by auto
      from pass b have "accepts encode (msgs ! (k' - 1))"
        and "p + total_tokens encode (drop (k' - 1) msgs) + 1000 \<le> L" by blast+
      then show False using fail' \<open>0 < k'\<close> by simp
    qed
  qed
  with r show ?thesis by (simp only:)
qed

text \<open>
  The loop returns when the codec encodes the content of every turn.
\<close>

lemma select_returns:
  assumes "\<forall>m\<in>set msgs. accepts encode m"
  shows "\<exists>tc sel. select encode msgs L p = Inr (tc, sel)"
proof -
  obtain k where k: "k \<le> length msgs"
    and r: "select encode msgs L p =
         (if k = 0 then Inr (p + total_tokens encode (drop k msgs), drop k msgs)
          else case encode (content (msgs ! (k - 1))) of
                 Inl e \<Rightarrow> Inl e
               | Inr tokens \<Rightarrow> Inr (p + total_tokens encode (drop k msgs), drop k msgs))"
    using select_char[of msgs encode p L] by blast
  show ?thesis
  proof (cases "k = 0")
    case True
    then show ?thesis using r by simp
  next
    case False
    then have "msgs ! (k - 1) \<in> set msgs" using k by simp
    then have "accepts encode (msgs ! (k - 1))" using assms by blast
    then obtain tokens where "encode (content (msgs ! (k - 1))) = Inr tokens"
      by (auto simp: accepts_iff)
    then show ?thesis using r False by simp
  qed
qed

lemma holds_replicate_a:
  "holds ''<|endoftext|>'' (replicate n (CHR ''a'') @ s) = holds ''<|endoftext|>'' s"
  by (induction n) simp_all

lemmas sample_select_defs = select_def select_loop.simps sample_messages_def sample_encode_def

text \<open>
  C1, as amended. Whenever the loop returns, \<open>tokenCount\<close> is the tokens of the rendered
  prompt plus those of the selected turns, and \<open>tokenCount + 1000 \<le> model.tokenLimit\<close> holds
  after the loop if the rendered prompt alone leaves the reserve free, and if at least one
  turn has been selected. The loop does return when the codec encodes every turn.
\<close>

theorem select_within_budget:
  "(\<forall>tokenCount selected.
       select encode msgs limit p = Inr (tokenCount, selected) \<longrightarrow>
         tokenCount = p + total_tokens encode selected
       \<and> (p + 1000 \<le> limit \<longrightarrow> tokenCount + 1000 \<le> limit)
       \<and> (selected \<noteq> [] \<longrightarrow> tokenCount + 1000 \<le> limit))
   \<and> ((\<forall>m\<in>set msgs. accepts encode m) \<longrightarrow>
        (\<exists>tokenCount selected. select encode msgs limit p = Inr (tokenCount, selected)))"
proof (intro conjI allI impI)
  fix tokenCount selected
  assume s: "select encode msgs limit p = Inr (tokenCount, selected)"
  obtain k where k: "k \<le> length msgs"
    and pass: "\<forall>j. k \<le> j \<and> j < length msgs \<longrightarrow>
           accepts encode (msgs ! j) \<and> p + total_tokens encode (drop j msgs) + 1000 \<le> limit"
    and r: "select encode msgs limit p =
         (if k = 0 then Inr (p + total_tokens encode (drop k msgs), drop k msgs)
          else case encode (content (msgs ! (k - 1))) of
                 Inl e \<Rightarrow> Inl e
               | Inr tokens \<Rightarrow> Inr (p + total_tokens encode (drop k msgs), drop k msgs))"
    using select_char[of msgs encode p limit] by blast
  have e: "tokenCount = p + total_tokens encode (drop k msgs) \<and> selected = drop k msgs"
    using r s by (auto split: if_splits sum.splits)
  have b: "tokenCount + 1000 \<le> limit" if "k < length msgs"
    using pass that e by simp
  show "tokenCount = p + total_tokens encode selected" using e by simp
  show "tokenCount + 1000 \<le> limit" if "p + 1000 \<le> limit"
  proof (cases "k < length msgs")
    case True
    then show ?thesis by (rule b)
  next
    case False
    then have "drop k msgs = []" using k by simp
    then show ?thesis using e that by (simp add: total_tokens_def)
  qed
  show "tokenCount + 1000 \<le> limit" if "selected \<noteq> []"
  proof -
    have "k < length msgs" using that e by (cases "k < length msgs") simp_all
    then show ?thesis by (rule b)
  qed
next
  assume "\<forall>m\<in>set msgs. accepts encode m"
  then show "\<exists>tokenCount selected. select encode msgs limit p = Inr (tokenCount, selected)"
    by (rule select_returns)
qed

text \<open>A prompt of 5 tokens and a history of 11 tokens under a limit of 4000.\<close>

theorem select_within_budget_witness:
  "(5::int) + 1000 \<le> 4000 \<and>
   (\<exists>tokenCount selected. select sample_encode sample_messages 4000 5 = Inr (tokenCount, selected)
      \<and> tokenCount = 5 + total_tokens sample_encode selected
      \<and> tokenCount + 1000 \<le> 4000)"
proof -
  have a: "\<forall>m\<in>set sample_messages. accepts sample_encode m"
    by (simp add: sample_messages_def accepts_def sample_encode_def)
  note T = select_within_budget[of sample_encode sample_messages 4000 5]
  from T a obtain tokenCount selected
    where s: "select sample_encode sample_messages 4000 5 = Inr (tokenCount, selected)"
    by blast
  from T s have "tokenCount = 5 + total_tokens sample_encode selected"
    and "5 + 1000 \<le> (4000::int) \<longrightarrow> tokenCount + 1000 \<le> 4000" by blast+
  then show ?thesis using s by auto
qed

text \<open>
  C1 as it is stated fails when the rendered prompt is over the budget by itself: with a
  prompt of 5 tokens and a limit of 1004 the loop ends with \<open>tokenCount = 5\<close>.
\<close>

theorem select_over_budget_counterexample:
  "select sample_encode sample_messages 1004 5 = Inr (5, []) \<and> \<not> (5 + 1000 \<le> (1004::int))"
  by (simp add: sample_select_defs)

text \<open>
  C2. There is a \<open>k\<close> such that every turn from \<open>k\<close> onwards was encoded and passed the
  test with the turns after it counted. If \<open>k = 0\<close> the whole history is selected. Otherwise
  the walk ends at turn \<open>k - 1\<close>: when the codec encodes it, it failed the test and the
  selected turns are \<open>drop k messages\<close>, a suffix of the history in the order of the
  history; when the codec refuses it, the loop throws that error. Either way the result is
  the same whatever the turns before \<open>k - 1\<close> are: the walk never reaches them.
\<close>

theorem select_newest_suffix:
  "\<exists>k\<le>length msgs.
      (\<forall>j. k \<le> j \<and> j < length msgs \<longrightarrow>
          accepts encode (msgs ! j) \<and> p + total_tokens encode (drop j msgs) + 1000 \<le> limit)
    \<and> (k = 0 \<longrightarrow> select encode msgs limit p = Inr (p + total_tokens encode msgs, msgs))
    \<and> (0 < k \<longrightarrow>
          (accepts encode (msgs ! (k - 1)) \<longrightarrow>
              select encode msgs limit p = Inr (p + total_tokens encode (drop k msgs), drop k msgs)
            \<and> limit < p + total_tokens encode (drop (k - 1) msgs) + 1000
            \<and> (\<forall>older. select encode (older @ drop (k - 1) msgs) limit p =
                          Inr (p + total_tokens encode (drop k msgs), drop k msgs)))
        \<and> (\<forall>e. encode (content (msgs ! (k - 1))) = Inl e \<longrightarrow>
              select encode msgs limit p = Inl e
            \<and> (\<forall>older. select encode (older @ drop (k - 1) msgs) limit p = Inl e)))"
proof -
  obtain k where k: "k \<le> length msgs"
    and pass: "\<forall>j. k \<le> j \<and> j < length msgs \<longrightarrow>
           accepts encode (msgs ! j) \<and> p + total_tokens encode (drop j msgs) + 1000 \<le> limit"
    and fail: "0 < k \<and> accepts encode (msgs ! (k - 1)) \<longrightarrow>
           limit < p + total_tokens encode (drop (k - 1) msgs) + 1000"
    and r: "select encode msgs limit p =
         (if k = 0 then Inr (p + total_tokens encode (drop k msgs), drop k msgs)
          else case encode (content (msgs ! (k - 1))) of
                 Inl e \<Rightarrow> Inl e
               | Inr tokens \<Rightarrow> Inr (p + total_tokens encode (drop k msgs), drop k msgs))"
    using select_char[of msgs encode p limit] by blast
  have stop: "select encode (older @ drop (k - 1) msgs) limit p =
               (case encode (content (msgs ! (k - 1))) of
                 Inl e \<Rightarrow> Inl e
               | Inr tokens \<Rightarrow> Inr (p + total_tokens encode (drop k msgs), drop k msgs))"
    if pos: "0 < k" for older
  proof -
    let ?ms = "older @ drop (k - 1) msgs"
    let ?k = "length older + 1"
    have dk: "drop (length older + i) ?ms = drop (k - 1 + i) msgs" for i
      by (simp add: add.commute)
    have e1: "drop ?k ?ms = drop k msgs" using dk[of 1] pos by simp
    have e0: "drop (?k - 1) ?ms = drop (k - 1) msgs" by simp
    have len: "length ?ms = length older + (length msgs - (k - 1))" by simp
    have nth: "?ms ! (length older + i) = msgs ! (k - 1 + i)" if "k - 1 + i < length msgs" for i
      using that by (simp add: nth_append)
    have n0: "?ms ! (?k - 1) = msgs ! (k - 1)" using nth[of 0] pos k by simp
    have "select encode ?ms limit p =
         (if ?k = 0 then Inr (p + total_tokens encode (drop ?k ?ms), drop ?k ?ms)
          else case encode (content (?ms ! (?k - 1))) of
                 Inl e \<Rightarrow> Inl e
               | Inr tokens \<Rightarrow> Inr (p + total_tokens encode (drop ?k ?ms), drop ?k ?ms))"
    proof (rule select_unique)
      show "?k \<le> length ?ms" using k pos by simp
      show "\<forall>j. ?k \<le> j \<and> j < length ?ms \<longrightarrow>
              accepts encode (?ms ! j) \<and> p + total_tokens encode (drop j ?ms) + 1000 \<le> limit"
      proof (intro allI impI)
        fix j assume j: "?k \<le> j \<and> j < length ?ms"
        define i where "i = j - length older"
        have ji: "j = length older + i" and i1: "1 \<le> i" using j by (auto simp: i_def)
        have b: "k \<le> k - 1 + i \<and> k - 1 + i < length msgs" using j ji i1 pos k len by auto
        then have "accepts encode (msgs ! (k - 1 + i)) \<and>
                   p + total_tokens encode (drop (k - 1 + i) msgs) + 1000 \<le> limit"
          using pass by blast
        then show "accepts encode (?ms ! j) \<and> p + total_tokens encode (drop j ?ms) + 1000 \<le> limit"
          using dk[of i] nth[of i] b ji by simp
      qed
      show "0 < ?k \<and> accepts encode (?ms ! (?k - 1)) \<longrightarrow>
              limit < p + total_tokens encode (drop (?k - 1) ?ms) + 1000"
        using fail pos e0 n0 by simp
    qed
    then show ?thesis unfolding n0 e1 by simp
  qed
  have A: "k = 0 \<longrightarrow> select encode msgs limit p = Inr (p + total_tokens encode msgs, msgs)"
    using r by simp
  have B: "0 < k \<longrightarrow>
          (accepts encode (msgs ! (k - 1)) \<longrightarrow>
              select encode msgs limit p = Inr (p + total_tokens encode (drop k msgs), drop k msgs)
            \<and> limit < p + total_tokens encode (drop (k - 1) msgs) + 1000
            \<and> (\<forall>older. select encode (older @ drop (k - 1) msgs) limit p =
                          Inr (p + total_tokens encode (drop k msgs), drop k msgs)))
        \<and> (\<forall>e. encode (content (msgs ! (k - 1))) = Inl e \<longrightarrow>
              select encode msgs limit p = Inl e
            \<and> (\<forall>older. select encode (older @ drop (k - 1) msgs) limit p = Inl e))"
  proof (intro impI conjI allI)
    assume pos: "0 < k" and ac: "accepts encode (msgs ! (k - 1))"
    then obtain tokens where t: "encode (content (msgs ! (k - 1))) = Inr tokens"
      by (auto simp: accepts_iff)
    show "select encode msgs limit p = Inr (p + total_tokens encode (drop k msgs), drop k msgs)"
      using r pos t by simp
    show "limit < p + total_tokens encode (drop (k - 1) msgs) + 1000" using fail pos ac by simp
    fix older
    show "select encode (older @ drop (k - 1) msgs) limit p =
            Inr (p + total_tokens encode (drop k msgs), drop k msgs)"
      using stop[OF pos, of older] t by simp
  next
    fix e assume pos: "0 < k" and t: "encode (content (msgs ! (k - 1))) = Inl e"
    show "select encode msgs limit p = Inl e" using r pos t by simp
    fix older
    show "select encode (older @ drop (k - 1) msgs) limit p = Inl e"
      using stop[OF pos, of older] t by simp
  qed
  show ?thesis using k pass A B by blast
qed

text \<open>
  A prompt of 3 tokens under a limit of 1010: the two newest turns (6 tokens) are
  selected, the oldest (5 tokens) fails the test. And a history whose newest turn the codec
  refuses: the walk ends there with the error.
\<close>

theorem select_newest_suffix_witness:
  "(\<exists>k\<le>length sample_messages. 0 < k \<and> accepts sample_encode (sample_messages ! (k - 1))
      \<and> select sample_encode sample_messages 1010 3 =
          Inr (3 + total_tokens sample_encode (drop k sample_messages), drop k sample_messages)
      \<and> 1010 < 3 + total_tokens sample_encode (drop (k - 1) sample_messages) + 1000
      \<and> (\<forall>older. select sample_encode (older @ drop (k - 1) sample_messages) 1010 3 =
                    Inr (3 + total_tokens sample_encode (drop k sample_messages),
                         drop k sample_messages)))
   \<and> (\<exists>k\<le>length special_messages. 0 < k
      \<and> sample_encode (content (special_messages ! (k - 1))) = Inl (EncodeError ''special token'')
      \<and> (\<forall>older. select sample_encode (older @ drop (k - 1) special_messages) 4000 3 =
                    Inl (EncodeError ''special token'')))"
proof (rule conjI)
  have v: "select sample_encode sample_messages 1010 3 = Inr (9, drop 1 sample_messages)"
    by (simp add: sample_select_defs)
  from select_newest_suffix[where msgs=sample_messages and encode=sample_encode and limit=1010 and p=3]
  obtain k where kk: "k \<le> length sample_messages \<and>
      (\<forall>j. k \<le> j \<and> j < length sample_messages \<longrightarrow>
          accepts sample_encode (sample_messages ! j) \<and>
          3 + total_tokens sample_encode (drop j sample_messages) + 1000 \<le> 1010)
    \<and> (k = 0 \<longrightarrow> select sample_encode sample_messages 1010 3 =
              Inr (3 + total_tokens sample_encode sample_messages, sample_messages))
    \<and> (0 < k \<longrightarrow>
          (accepts sample_encode (sample_messages ! (k - 1)) \<longrightarrow>
              select sample_encode sample_messages 1010 3 =
                Inr (3 + total_tokens sample_encode (drop k sample_messages), drop k sample_messages)
            \<and> 1010 < 3 + total_tokens sample_encode (drop (k - 1) sample_messages) + 1000
            \<and> (\<forall>older. select sample_encode (older @ drop (k - 1) sample_messages) 1010 3 =
                          Inr (3 + total_tokens sample_encode (drop k sample_messages),
                               drop k sample_messages)))
        \<and> (\<forall>e. sample_encode (content (sample_messages ! (k - 1))) = Inl e \<longrightarrow>
              select sample_encode sample_messages 1010 3 = Inl e
            \<and> (\<forall>older. select sample_encode (older @ drop (k - 1) sample_messages) 1010 3 = Inl e)))"
    ..
  note k = kk[THEN conjunct1]
  note z = kk[THEN conjunct2, THEN conjunct2, THEN conjunct1]
  note rest = kk[THEN conjunct2, THEN conjunct2, THEN conjunct2]
  have pos: "0 < k"
  proof (rule ccontr)
    assume "\<not> 0 < k"
    then have "k = 0" by simp
    from z[rule_format, OF this] v
    have "length (drop 1 sample_messages) = length sample_messages" by simp
    then show False by (simp add: sample_messages_def)
  qed
  have all: "\<forall>m\<in>set sample_messages. accepts sample_encode m"
    by (simp add: sample_messages_def accepts_def sample_encode_def)
  have "sample_messages ! (k - 1) \<in> set sample_messages" using pos k by simp
  then have ac: "accepts sample_encode (sample_messages ! (k - 1))" using all by blast
  note main = rest[rule_format, OF pos, THEN conjunct1, rule_format, OF ac]
  show "\<exists>k\<le>length sample_messages. 0 < k \<and> accepts sample_encode (sample_messages ! (k - 1))
      \<and> select sample_encode sample_messages 1010 3 =
          Inr (3 + total_tokens sample_encode (drop k sample_messages), drop k sample_messages)
      \<and> 1010 < 3 + total_tokens sample_encode (drop (k - 1) sample_messages) + 1000
      \<and> (\<forall>older. select sample_encode (older @ drop (k - 1) sample_messages) 1010 3 =
                    Inr (3 + total_tokens sample_encode (drop k sample_messages),
                         drop k sample_messages))"
    by (intro exI[of _ k] conjI k pos ac main[THEN conjunct1]
          main[THEN conjunct2, THEN conjunct1] main[THEN conjunct2, THEN conjunct2])
next
  have v: "select sample_encode special_messages 4000 3 = Inl (EncodeError ''special token'')"
    by (simp add: select_def select_loop.simps special_messages_def sample_encode_def)
  from select_newest_suffix[where msgs=special_messages and encode=sample_encode and limit=4000 and p=3]
  obtain k where kk: "k \<le> length special_messages \<and>
      (\<forall>j. k \<le> j \<and> j < length special_messages \<longrightarrow>
          accepts sample_encode (special_messages ! j) \<and>
          3 + total_tokens sample_encode (drop j special_messages) + 1000 \<le> 4000)
    \<and> (k = 0 \<longrightarrow> select sample_encode special_messages 4000 3 =
              Inr (3 + total_tokens sample_encode special_messages, special_messages))
    \<and> (0 < k \<longrightarrow>
          (accepts sample_encode (special_messages ! (k - 1)) \<longrightarrow>
              select sample_encode special_messages 4000 3 =
                Inr (3 + total_tokens sample_encode (drop k special_messages), drop k special_messages)
            \<and> 4000 < 3 + total_tokens sample_encode (drop (k - 1) special_messages) + 1000
            \<and> (\<forall>older. select sample_encode (older @ drop (k - 1) special_messages) 4000 3 =
                          Inr (3 + total_tokens sample_encode (drop k special_messages),
                               drop k special_messages)))
        \<and> (\<forall>e. sample_encode (content (special_messages ! (k - 1))) = Inl e \<longrightarrow>
              select sample_encode special_messages 4000 3 = Inl e
            \<and> (\<forall>older. select sample_encode (older @ drop (k - 1) special_messages) 4000 3 = Inl e)))"
    ..
  note k = kk[THEN conjunct1]
  note z = kk[THEN conjunct2, THEN conjunct2, THEN conjunct1]
  note rest = kk[THEN conjunct2, THEN conjunct2, THEN conjunct2]
  have pos: "0 < k"
  proof (rule ccontr)
    assume "\<not> 0 < k"
    then have "k = 0" by simp
    from z[rule_format, OF this] v show False by simp
  qed
  have nacc: "\<not> accepts sample_encode (special_messages ! (k - 1))"
  proof
    assume ac: "accepts sample_encode (special_messages ! (k - 1))"
    from rest[rule_format, OF pos, THEN conjunct1, rule_format, OF ac, THEN conjunct1] v
    show False by simp
  qed
  then obtain e where e: "sample_encode (content (special_messages ! (k - 1))) = Inl e"
    by (auto simp: accepts_def split: sum.splits)
  note err = rest[rule_format, OF pos, THEN conjunct2, rule_format, OF e]
  have ee: "e = EncodeError ''special token''" using err[THEN conjunct1] v by simp
  show "\<exists>k\<le>length special_messages. 0 < k
      \<and> sample_encode (content (special_messages ! (k - 1))) = Inl (EncodeError ''special token'')
      \<and> (\<forall>older. select sample_encode (older @ drop (k - 1) special_messages) 4000 3 =
                    Inl (EncodeError ''special token''))"
    using k pos e err[THEN conjunct2] unfolding ee by (intro exI[of _ k] conjI) 
qed




section \<open>Properties of the deduplication\<close>

lemma set_first_occurrences: "set (first_occurrences xs) = set xs"
  by (induction xs) auto

lemma distinct_first_occurrences: "distinct (first_occurrences xs)"
  by (induction xs) (auto simp: set_first_occurrences)

lemma first_occurrences_distinct: "distinct xs \<Longrightarrow> first_occurrences xs = xs"
proof (induction xs)
  case Nil
  show ?case by simp
next
  case (Cons x xs)
  then have "filter (\<lambda>y. y \<noteq> x) xs = xs" by (auto intro: filter_True)
  then show ?case using Cons by simp
qed

lemma foldl_Set_add:
  "foldl Set_add s xs = s @ filter (\<lambda>x. x \<notin> set s) (first_occurrences xs)"
proof (induction xs arbitrary: s)
  case Nil
  show ?case by simp
next
  case (Cons x xs)
  show ?case
  proof (cases "x \<in> set s")
    case True
    then have "filter (\<lambda>y. y \<notin> set s) (filter (\<lambda>y. y \<noteq> x) (first_occurrences xs)) =
               filter (\<lambda>y. y \<notin> set s) (first_occurrences xs)"
      by (auto intro: filter_cong)
    then show ?thesis using True Cons[of s] by (simp add: Set_add_def)
  next
    case False
    have "filter (\<lambda>y. y \<notin> set (s @ [x])) (first_occurrences xs) =
          filter (\<lambda>y. y \<notin> set s) (filter (\<lambda>y. y \<noteq> x) (first_occurrences xs))"
      by (auto intro: filter_cong)
    then show ?thesis using False Cons[of "s @ [x]"] by (simp add: Set_add_def)
  qed
qed

lemma new_Set_first_occurrences: "new_Set xs = first_occurrences xs"
  by (simp add: new_Set_def foldl_Set_add)

lemma Map_set_fresh: "\<not> Map_has m k \<Longrightarrow> Map_set m k v = m @ [(k, v)]"
  by (induction m) (auto simp: Map_has_def)

lemma keys_reducer:
  "map fst (fullDocuments_reducer m x) = Set_add (map fst m) (url (metadata x))"
  by (simp add: fullDocuments_reducer_def Set_add_def Map_set_fresh Map_has_def)

lemma keys_foldl_reducer:
  "map fst (foldl fullDocuments_reducer m ms) =
   foldl Set_add (map fst m) (map (\<lambda>match. url (metadata match)) ms)"
  by (induction ms arbitrary: m) (simp_all add: keys_reducer)

lemma keys_fullDocuments_map: "map fst (fullDocuments_map ms) = urls ms"
  by (simp add: fullDocuments_map_def urls_def new_Set_def keys_foldl_reducer)

lemma map_of_reducer:
  "map_of (fullDocuments_reducer m x) = map_of (m @ [(url (metadata x), text' (metadata x))])"
proof (cases "Map_has m (url (metadata x))")
  case True
  then have "map_of m (url (metadata x)) \<noteq> None"
    by (simp add: Map_has_def map_of_eq_None_iff)
  then obtain v where "map_of m (url (metadata x)) = Some v" by blast
  then show ?thesis using True
    by (auto simp: fullDocuments_reducer_def map_add_def fun_eq_iff split: option.splits)
next
  case False
  then show ?thesis by (simp add: fullDocuments_reducer_def Map_set_fresh)
qed

lemma map_of_foldl_reducer:
  "map_of (foldl fullDocuments_reducer m ms) =
   map_of (m @ map (\<lambda>match. (url (metadata match), text' (metadata match))) ms)"
proof (induction ms arbitrary: m)
  case Nil
  show ?case by simp
next
  case (Cons x xs)
  have "map_of (foldl fullDocuments_reducer m (x # xs)) =
        map_of (fullDocuments_reducer m x @ map (\<lambda>match. (url (metadata match), text' (metadata match))) xs)"
    using Cons[of "fullDocuments_reducer m x"] by simp
  also have "\<dots> = map_of (map (\<lambda>match. (url (metadata match), text' (metadata match))) xs)
                     ++ map_of (fullDocuments_reducer m x)"
    by simp
  also have "\<dots> = map_of (map (\<lambda>match. (url (metadata match), text' (metadata match))) xs)
                     ++ map_of (m @ [(url (metadata x), text' (metadata x))])"
    by (simp only: map_of_reducer)
  also have "\<dots> = map_of (m @ map (\<lambda>match. (url (metadata match), text' (metadata match))) (x # xs))"
    by simp
  finally show ?case .
qed

lemma map_of_fullDocuments_map:
  "map_of (fullDocuments_map ms) =
   map_of (map (\<lambda>match. (url (metadata match), text' (metadata match))) ms)"
  by (simp add: fullDocuments_map_def map_of_foldl_reducer)

lemma foldl_reducer_distinct:
  "distinct (map fst m @ map (\<lambda>match. url (metadata match)) ms) \<Longrightarrow>
   foldl fullDocuments_reducer m ms =
   m @ map (\<lambda>match. (url (metadata match), text' (metadata match))) ms"
proof (induction ms arbitrary: m)
  case Nil
  show ?case by simp
next
  case (Cons x xs)
  then have nh: "\<not> Map_has m (url (metadata x))" by (auto simp: Map_has_def)
  then have step: "fullDocuments_reducer m x = m @ [(url (metadata x), text' (metadata x))]"
    by (simp add: fullDocuments_reducer_def Map_set_fresh)
  have "distinct (map fst (m @ [(url (metadata x), text' (metadata x))]) @ map (\<lambda>match. url (metadata match)) xs)"
    using Cons.prems by auto
  from Cons.IH[OF this] show ?case using step by simp
qed

text \<open>
  C4. \<open>urls\<close> is the list of the distinct urls of the matches in the order of their
  first occurrence; the \<^verbatim>\<open>Map\<close> behind \<open>fullDocuments\<close> has exactly these keys in this
  order, and binds each url to the text of the first match that has it. On matches whose
  urls are already distinct both results are the input, url by url and text by text;
  deduplicating the documents again changes nothing; no matches give no documents.
\<close>

theorem deduplicator:
  "urls ms = first_occurrences (map (\<lambda>match. url (metadata match)) ms)
   \<and> distinct (urls ms)
   \<and> set (urls ms) = set (map (\<lambda>match. url (metadata match)) ms)
   \<and> map fst (fullDocuments_map ms) = urls ms
   \<and> map_of (fullDocuments_map ms) =
       map_of (map (\<lambda>match. (url (metadata match), text' (metadata match))) ms)
   \<and> length (fullDocuments ms) = length (urls ms)
   \<and> (distinct (map (\<lambda>match. url (metadata match)) ms) \<longrightarrow>
        urls ms = map (\<lambda>match. url (metadata match)) ms
      \<and> fullDocuments ms = map (\<lambda>match. text' (metadata match)) ms)
   \<and> urls (map (\<lambda>(u, t). \<lparr> metadata = \<lparr> url = u, text' = t, chunk = c \<rparr> \<rparr>) (fullDocuments_map ms)) = urls ms
   \<and> fullDocuments (map (\<lambda>(u, t). \<lparr> metadata = \<lparr> url = u, text' = t, chunk = c \<rparr> \<rparr>) (fullDocuments_map ms)) = fullDocuments ms
   \<and> urls [] = [] \<and> fullDocuments [] = []"
proof -
  let ?u = "\<lambda>match. url (metadata match)"
  let ?re = "map (\<lambda>(u, t). \<lparr> metadata = \<lparr> url = u, text' = t, chunk = c \<rparr> \<rparr>) (fullDocuments_map ms)"
  have a: "urls ms = first_occurrences (map ?u ms)"
    by (simp add: urls_def new_Set_first_occurrences)
  have b: "distinct (urls ms)" by (simp add: a distinct_first_occurrences)
  have c: "set (urls ms) = set (map ?u ms)" by (simp only: a set_first_occurrences)
  have d: "map fst (fullDocuments_map ms) = urls ms" by (rule keys_fullDocuments_map)
  have e: "length (fullDocuments ms) = length (urls ms)"
    using arg_cong[OF d, of length] by (simp add: fullDocuments_def)
  have dist: "fullDocuments_map xs = map (\<lambda>match. (url (metadata match), text' (metadata match))) xs"
    if "distinct (map ?u xs)" for xs
    using foldl_reducer_distinct[of "[]" xs] that by (simp add: fullDocuments_map_def)
  have f: "distinct (map ?u ms) \<longrightarrow> urls ms = map ?u ms \<and> fullDocuments ms = map (\<lambda>match. text' (metadata match)) ms"
    using dist[of ms] by (auto simp: a first_occurrences_distinct fullDocuments_def comp_def)
  have ku: "map ?u ?re = urls ms"
    using d by (simp add: comp_def case_prod_unfold)
  have "urls ?re = first_occurrences (map ?u ?re)"
    by (simp only: urls_def new_Set_first_occurrences)
  then have g: "urls ?re = urls ms"
    using b by (simp only: ku first_occurrences_distinct)
  have "fullDocuments_map ?re = map (\<lambda>match. (url (metadata match), text' (metadata match))) ?re"
    by (rule dist) (simp only: ku b)
  also have "\<dots> = fullDocuments_map ms" by (simp add: comp_def case_prod_unfold)
  finally have h: "fullDocuments ?re = fullDocuments ms" by (simp add: fullDocuments_def)
  have i: "urls [] = [] \<and> fullDocuments [] = []"
    by (simp add: urls_def new_Set_def fullDocuments_def fullDocuments_map_def)
  show ?thesis using a b c d e f g h i map_of_fullDocuments_map[of ms] by simp
qed

text \<open>The sample matches: three matches, two sources.\<close>

lemma sample_urls: "urls sample_matches = [''a.html'', ''b.html'']"
  by (simp add: urls_def new_Set_def Set_add_def sample_matches_def)

lemma sample_docs: "fullDocuments sample_matches = [''alpha'', ''beta'']"
  by (simp add: fullDocuments_def fullDocuments_map_def fullDocuments_reducer_def Map_has_def sample_matches_def)

theorem deduplicator_witness:
  "distinct (map (\<lambda>match. url (metadata match)) (take 2 sample_matches))
   \<and> urls (take 2 sample_matches) = [''a.html'', ''b.html'']
   \<and> fullDocuments (take 2 sample_matches) = [''alpha'', ''beta'']"
  using deduplicator[of "take 2 sample_matches"]
  by (simp add: sample_matches_def)

section \<open>Properties of the streaming relay\<close>

lemma readAndWrite_chunks:
  "(\<forall>i<length cs. stream (n + i) = ReadValue (cs ! i)) \<Longrightarrow> stream (n + length cs) = ReadDone \<Longrightarrow>
   readAndWrite stream n out = Some (out @ map (\<lambda>c. Res (Write c)) cs @ [Res End])"
proof (induction cs arbitrary: n out)
  case Nil
  then show ?case by (subst readAndWrite.simps) simp
next
  case (Cons c cs)
  have hd: "stream n = ReadValue c" using Cons.prems(1)[rule_format, of 0] by simp
  have tl: "\<forall>i<length cs. stream (Suc n + i) = ReadValue (cs ! i)"
    using Cons.prems(1) by (metis add_Suc_shift length_Cons nth_Cons_Suc Suc_less_eq)
  have dn: "stream (Suc n + length cs) = ReadDone" using Cons.prems(2) by simp
  show ?case
    by (subst readAndWrite.simps) (simp add: hd Cons.IH[OF tl dn])
qed

text \<open>
  A read that rejects: the first one is answered with status 500, a later one leaves the
  response open after the chunks read so far.
\<close>

lemma readAndWrite_rejected:
  "(\<forall>i<length cs. stream (n + i) = ReadValue (cs ! i)) \<Longrightarrow>
   stream (n + length cs) = ReadRejected e \<Longrightarrow>
   readAndWrite stream n out =
     Some (out @ map (\<lambda>c. Res (Write c)) cs @
           (if n + length cs = 0
            then [ConsoleError e, Res (Status 500),
                  Res (EndWith ''An error occurred while streaming data.'')]
            else [UnhandledRejection e]))"
proof (induction cs arbitrary: n out)
  case Nil
  then show ?case by (subst readAndWrite.simps) simp
next
  case (Cons c cs)
  have hd: "stream n = ReadValue c" using Cons.prems(1)[rule_format, of 0] by simp
  have tl: "\<forall>i<length cs. stream (Suc n + i) = ReadValue (cs ! i)"
    using Cons.prems(1) by (metis add_Suc_shift length_Cons nth_Cons_Suc Suc_less_eq)
  have dn: "stream (Suc n + length cs) = ReadRejected e" using Cons.prems(2) by simp
  show ?case
    by (subst readAndWrite.simps) (simp add: hd Cons.IH[OF tl dn])
qed

text \<open>
  C6. For a producer that delivers the chunks \<open>cs\<close> and then signals the end of the
  stream, \<^verbatim>\<open>readAndWrite\<close> returns, having written exactly the chunks \<open>cs\<close> to \<^verbatim>\<open>res\<close>, each
  once and in the order received, followed by one \<^verbatim>\<open>res.end()\<close>. The callbacks of
  \<open>handler_chat\<close> do the same for the tokens and the end reported by the model.
\<close>

theorem relay_in_order:
  assumes "\<forall>i<length cs. stream i = ReadValue (cs ! i)" and "stream (length cs) = ReadDone"
  shows "readAndWrite stream 0 [] = Some (map (\<lambda>c. Res (Write c)) cs @ [Res End])
       \<and> concat (map callbackManager (map LLMNewToken cs @ [LLMEnd])) = map Write cs @ [End]"
proof -
  have "concat (map callbackManager (map LLMNewToken cs)) = map Write cs"
    by (induction cs) simp_all
  then show ?thesis using readAndWrite_chunks[of cs stream 0 "[]"] assms by simp
qed

theorem relay_in_order_witness:
  "stream_of sample_chunks 0 = ReadValue ''The''
   \<and> stream_of sample_chunks 3 = ReadValue '' 4.''
   \<and> stream_of sample_chunks (length sample_chunks) = ReadDone
   \<and> readAndWrite (stream_of sample_chunks) 0 [] =
       Some [Res (Write ''The''), Res (Write '' answer''), Res (Write '' is''), Res (Write '' 4.''), Res End]"
  using relay_in_order[of sample_chunks "stream_of sample_chunks"]
  by (simp add: stream_of_def sample_chunks_def)

section \<open>Properties of the handlers\<close>

text \<open>
  How the sequencing behaves on each kind of computation.
\<close>

lemma io_bind_Inl: "io_bind (t, Inl e) f = (t, Inl e)"
  by (simp add: io_bind_def)

lemma io_bind_Inr: "io_bind (t, Inr x) f = (t @ fst (f x), snd (f x))"
  by (simp add: io_bind_def split: prod.splits)

lemma io_bind_return: "io_bind (io_return x) f = f x"
  by (simp add: io_bind_def io_return_def split: prod.splits)

lemma io_bind_throw: "io_bind (io_throw e) f = io_throw e"
  by (simp add: io_bind_def io_throw_def)

lemma io_bind_call:
  "io_bind (io_call ev r) f =
     (case r of Inl e \<Rightarrow> ([ev], Inl e) | Inr x \<Rightarrow> (ev # fst (f x), snd (f x)))"
  by (simp add: io_bind_def io_call_def split: prod.splits sum.splits)

lemma io_bind_pure:
  "io_bind ([], r) f = (case r of Inl e \<Rightarrow> ([], Inl e) | Inr x \<Rightarrow> f x)"
  by (simp add: io_bind_def split: prod.splits sum.splits)

lemmas io_simps = io_bind_Inl io_bind_Inr io_bind_return io_bind_throw io_bind_call
  io_return_def io_throw_def

lemmas call_defs = initPineconeClient_def encoding_for_model_def new_Tiktoken_def inquiryChain_def
  embedder_embedQuery_def getMatches_def summarize_def promptQA_def encoding_free_def
  call_OpenAIStream_def res_do_def last_content_def

text \<open>
  The definitions to unfold when a handler is run on the sample collaborators.
\<close>

lemmas sample_defs = sample_env_def sample_body_def sample_messages_def sample_encode_def
  sample_matches_def sample_chunks_def

lemmas dedup_defs = urls_def new_Set_def Set_add_def fullDocuments_def fullDocuments_map_def
  fullDocuments_reducer_def Map_has_def

lemmas run_defs = call_defs io_simps io_bind_pure try_catch_def statusText_def temperatureToUse_def
  select_def select_loop.simps documentTokens_def call_chain_def

lemma try_catch_Inl: "try_catch (t, Inl e) = (t @ [ConsoleError e], Response500 (statusText e))"
  by (simp add: try_catch_def)

lemma try_catch_Inr: "try_catch (t, Inr out) = (t, out)"
  by (simp add: try_catch_def)

text \<open>
  When the first part of a handler returns, every collaborator it called has returned,
  and the effects so far are the following ones.
\<close>

lemma assemble_part_000_Inr:
  assumes "assemble_part_000 env pinecone body = (t, Inr l)"
  shows "\<exists>inquiry embeddings summary.
      codecs env (id' (model body)) = Some (l_encoding l)
    \<and> promptQA_format env summary (prompt body) (map content (messages body)) (urls (l_matches l))
        = Inr (l_promptToSend l)
    \<and> l_temperatureToUse l = temperatureToUse (DEFAULT_TEMPERATURE env) (temperature body)
    \<and> t = (if pinecone then [] else [PineconeInit]) @
          [EncodingForModel (id' (model body)),
           InquiryChainCall (prompt body) (map content (messages body)),
           EmbedQuery inquiry,
           GetMatchesFromEmbeddings embeddings 3,
           SummarizeLongDocument (join_newline (fullDocuments (l_matches l))) inquiry,
           PromptFormat summary (prompt body) (map content (messages body)) (urls (l_matches l))]"
  using assms
  by (auto simp: assemble_part_000_def call_defs io_simps split: sum.splits option.splits if_splits)

lemma assemble_edge_Inr:
  assumes "assemble_edge env pinecone body = (t, Inr l)"
  shows "\<exists>inquiry embeddings summary.
      l_encoding l = cl100k_base env
    \<and> promptQA_format env summary (prompt body) (map content (messages body)) (urls (l_matches l))
        = Inr (l_promptToSend l)
    \<and> l_temperatureToUse l = temperatureToUse (DEFAULT_TEMPERATURE env) (temperature body)
    \<and> t = (if pinecone then [] else [PineconeInit]) @
          [TiktokenNew,
           InquiryChainCall (prompt body) (map content (messages body)),
           EmbedQuery inquiry,
           GetMatchesFromEmbeddings embeddings 3,
           SummarizeLongDocument (join_newline (fullDocuments (l_matches l))) inquiry,
           PromptFormat summary (prompt body) (map content (messages body)) (urls (l_matches l))]"
  using assms
  by (auto simp: assemble_edge_def call_defs io_simps split: sum.splits option.splits if_splits)

lemma assemble_chat_Inr:
  assumes "assemble_chat env pinecone body = (t, Inr l)"
  shows "\<exists>embeddings dt.
      codecs env (id' (model body)) = Some (l_encoding l)
    \<and> messages body \<noteq> []
    \<and> documentTokens (l_encoding l) (fullDocuments (l_matches l)) = Inr dt
    \<and> promptQA_format env (join_newline (fullDocuments (l_matches l))) (prompt body)
          (map content (messages body)) (urls (l_matches l))
        = Inr (l_promptToSend l)
    \<and> l_temperatureToUse l = temperatureToUse (DEFAULT_TEMPERATURE env) (temperature body)
    \<and> t = (if pinecone then [] else [PineconeInit]) @
          [EncodingForModel (id' (model body)),
           EmbedQuery (content (last (messages body))),
           GetMatchesFromEmbeddings embeddings 3] @
          (if dt > 14000
           then [SummarizeLongDocument (join_newline (fullDocuments (l_matches l)))
                   (content (last (messages body)))]
           else []) @
          [PromptFormat (join_newline (fullDocuments (l_matches l))) (prompt body)
             (map content (messages body)) (urls (l_matches l))]"
proof -
  from assms obtain enc v matches dt p where
      "codecs env (id' (model body)) = Some enc" "messages body \<noteq> []"
      "documentTokens enc (fullDocuments matches) = Inr dt"
      "promptQA_format env (join_newline (fullDocuments matches)) (prompt body)
          (map content (messages body)) (urls matches) = Inr p"
      "l = \<lparr> l_encoding = enc, l_matches = matches,
             l_temperatureToUse = temperatureToUse (DEFAULT_TEMPERATURE env) (temperature body),
             l_promptToSend = p \<rparr>"
      "t = (if pinecone then [] else [PineconeInit]) @
          [EncodingForModel (id' (model body)),
           EmbedQuery (content (last (messages body))),
           GetMatchesFromEmbeddings v 3] @
          (if dt > 14000
           then [SummarizeLongDocument (join_newline (fullDocuments matches))
                   (content (last (messages body)))]
           else []) @
          [PromptFormat (join_newline (fullDocuments matches)) (prompt body)
             (map content (messages body)) (urls matches)]"
    by (auto simp: assemble_chat_def call_defs io_simps io_bind_pure
        split: sum.splits option.splits if_splits)
  then show ?thesis by (intro exI[of _ v] exI[of _ dt]) simp
qed

text \<open>
  When the first part of a handler throws, it has neither released the codec nor called
  the model, and \<^verbatim>\<open>promptQA.format\<close>, if it was called, got the question and the whole
  history.
\<close>

lemma assemble_part_000_Inl:
  assumes "assemble_part_000 env pinecone body = (t, Inl e)"
  shows "EncodingFree \<notin> set t
       \<and> (\<forall>m p tt k ms. OpenAIStreamCall m p tt k ms \<notin> set t)
       \<and> (\<forall>c s p ms u. ChainCall c s p ms u \<notin> set t)
       \<and> (\<forall>s q h u. PromptFormat s q h u \<in> set t \<longrightarrow>
             q = prompt body \<and> h = map content (messages body))"
  using assms
  by (auto simp: assemble_part_000_def call_defs io_simps split: sum.splits option.splits if_splits)

lemma assemble_edge_Inl:
  assumes "assemble_edge env pinecone body = (t, Inl e)"
  shows "EncodingFree \<notin> set t
       \<and> (\<forall>m p tt k ms. OpenAIStreamCall m p tt k ms \<notin> set t)
       \<and> (\<forall>c s p ms u. ChainCall c s p ms u \<notin> set t)
       \<and> (\<forall>s q h u. PromptFormat s q h u \<in> set t \<longrightarrow>
             q = prompt body \<and> h = map content (messages body))"
  using assms
  by (auto simp: assemble_edge_def call_defs io_simps split: sum.splits option.splits if_splits)

lemma assemble_chat_Inl:
  assumes "assemble_chat env pinecone body = (t, Inl e)"
  shows "EncodingFree \<notin> set t
       \<and> (\<forall>m p tt k ms. OpenAIStreamCall m p tt k ms \<notin> set t)
       \<and> (\<forall>c s p ms u. ChainCall c s p ms u \<notin> set t)
       \<and> (\<forall>s q h u. PromptFormat s q h u \<in> set t \<longrightarrow>
             q = prompt body \<and> h = map content (messages body))"
  using assms
  by (auto simp: assemble_chat_def call_defs io_simps io_bind_pure
      split: sum.splits option.splits if_splits)

text \<open>
  The handlers after their first part: the \<^verbatim>\<open>catch\<close> block if it threw; otherwise the
  rendered prompt is encoded and the selection loop run, each of which may throw into the
  \<^verbatim>\<open>catch\<close> block, and then come \<^verbatim>\<open>encoding.free()\<close> and the generation.
\<close>

lemma handler_part_000_Inl:
  assumes "assemble_part_000 env pinecone body = (t, Inl e)"
  shows "handler_part_000 env pinecone body = (t @ [ConsoleError e], Response500 (statusText e))"
  by (simp add: handler_part_000_def assms io_simps try_catch_Inl)

lemma handler_edge_Inl:
  assumes "assemble_edge env pinecone body = (t, Inl e)"
  shows "handler_edge env pinecone body = (t @ [ConsoleError e], Response500 (statusText e))"
  by (simp add: handler_edge_def assms io_simps try_catch_Inl)

lemma handler_chat_Inl:
  assumes "assemble_chat env pinecone body = (t, Inl e)"
  shows "handler_chat env pinecone body = (t @ [ConsoleError e], Response500 (statusText e))"
  by (simp add: handler_chat_def assms io_simps try_catch_Inl)

lemma handler_part_000_after:
  assumes "assemble_part_000 env pinecone body = (t, Inr l)"
  shows "handler_part_000 env pinecone body =
     (case l_encoding l (l_promptToSend l) of
        Inl e \<Rightarrow> (t @ [ConsoleError e], Response500 (statusText e))
      | Inr prompt_tokens \<Rightarrow>
         (case select (l_encoding l) (messages body) (tokenLimit (model body))
                 (int (length prompt_tokens)) of
            Inl e \<Rightarrow> (t @ [ConsoleError e], Response500 (statusText e))
          | Inr (tokenCount, ms) \<Rightarrow>
             (case OpenAIStream env (model body) (l_promptToSend l) (l_temperatureToUse l)
                     (OPENAI_API_KEY env) ms of
                Inl e \<Rightarrow>
                  (t @ [EncodingFree,
                        OpenAIStreamCall (model body) (l_promptToSend l) (l_temperatureToUse l)
                          (OPENAI_API_KEY env) ms,
                        ConsoleError e],
                   Response500 (statusText e))
              | Inr stream \<Rightarrow>
                  (t @ [EncodingFree,
                        OpenAIStreamCall (model body) (l_promptToSend l) (l_temperatureToUse l)
                          (OPENAI_API_KEY env) ms,
                        Res (SetHeader ''Content-Type'' ''text/plain''),
                        Res (SetHeader ''Transfer-Encoding'' ''chunked'')],
                   Relaying stream))))"
  by (simp add: handler_part_000_def assms io_simps io_bind_pure call_defs try_catch_def
      split: sum.splits prod.splits)

lemma handler_edge_after:
  assumes "assemble_edge env pinecone body = (t, Inr l)"
  shows "handler_edge env pinecone body =
     (case l_encoding l (l_promptToSend l) of
        Inl e \<Rightarrow> (t @ [ConsoleError e], Response500 (statusText e))
      | Inr prompt_tokens \<Rightarrow>
         (case select (l_encoding l) (messages body) (tokenLimit (model body))
                 (int (length prompt_tokens)) of
            Inl e \<Rightarrow> (t @ [ConsoleError e], Response500 (statusText e))
          | Inr (tokenCount, ms) \<Rightarrow>
             (case OpenAIStream env (model body) (l_promptToSend l) (l_temperatureToUse l)
                     (key body) ms of
                Inl e \<Rightarrow>
                  (t @ [EncodingFree,
                        OpenAIStreamCall (model body) (l_promptToSend l) (l_temperatureToUse l)
                          (key body) ms,
                        ConsoleError e],
                   Response500 (statusText e))
              | Inr stream \<Rightarrow>
                  (t @ [EncodingFree,
                        OpenAIStreamCall (model body) (l_promptToSend l) (l_temperatureToUse l)
                          (key body) ms],
                   ResponseStream stream))))"
  by (simp add: handler_edge_def assms io_simps io_bind_pure call_defs try_catch_def
      split: sum.splits prod.splits)

lemma handler_chat_after:
  assumes "assemble_chat env pinecone body = (t, Inr l)"
  shows "handler_chat env pinecone body =
     (case l_encoding l (l_promptToSend l) of
        Inl e \<Rightarrow> (t @ [ConsoleError e], Response500 (statusText e))
      | Inr prompt_tokens \<Rightarrow>
         (case select (l_encoding l) (messages body) (tokenLimit (model body))
                 (int (length prompt_tokens)) of
            Inl e \<Rightarrow> (t @ [ConsoleError e], Response500 (statusText e))
          | Inr (tokenCount, ms) \<Rightarrow>
             (case chain_call env
                     \<lparr> streaming = True, verbose = True, modelName = ''gpt-3.5-turbo-16k'',
                       temperature_option = None \<rparr>
                     (join_newline (fullDocuments (l_matches l))) (l_promptToSend l) ms
                     (urls (l_matches l)) of
                (evs, failure) \<Rightarrow>
                  (t @ [EncodingFree,
                        ChainCall \<lparr> streaming = True, verbose = True,
                                    modelName = ''gpt-3.5-turbo-16k'', temperature_option = None \<rparr>
                          (join_newline (fullDocuments (l_matches l))) (l_promptToSend l) ms
                          (urls (l_matches l))]
                     @ map Res (concat (map callbackManager evs))
                     @ (case failure of None \<Rightarrow> [] | Some e \<Rightarrow> [ConsoleError e]),
                   (case failure of None \<Rightarrow> Finished
                    | Some e \<Rightarrow> Response500 (statusText e))))))"
  by (simp add: handler_chat_def assms io_simps io_bind_pure call_defs call_chain_def try_catch_def
      split: sum.splits prod.splits option.splits)




text \<open>
  The run of a handler whose collaborators all return up to the end of the selection
  loop: the effects up to \<^verbatim>\<open>promptQA.format\<close>, then \<^verbatim>\<open>encoding.free()\<close>, then the generation call,
  and no \<^verbatim>\<open>encoding.free()\<close> after that.
\<close>

lemma handler_part_000_run:
  assumes pc: "pinecone \<or> pinecone_init env = Inr ()"
    and cd: "codecs env (id' (model body)) = Some enc"
    and iq: "inquiryChain_call env (prompt body) (map content (messages body)) = Inr inquiry"
    and em: "embedQuery env inquiry = Inr v"
    and gm: "getMatchesFromEmbeddings env v 3 = Inr matches"
    and su: "summarizeLongDocument env (join_newline (fullDocuments matches)) inquiry = Inr summary"
    and fo: "promptQA_format env summary (prompt body) (map content (messages body)) (urls matches)
               = Inr p"
    and ep: "enc p = Inr pt"
    and s: "select enc (messages body) (tokenLimit (model body)) (int (length pt)) = Inr (tc, ms)"
  shows "\<exists>rest out. EncodingFree \<notin> set rest
    \<and> handler_part_000 env pinecone body =
        ((if pinecone then [] else [PineconeInit]) @
         [EncodingForModel (id' (model body)),
          InquiryChainCall (prompt body) (map content (messages body)),
          EmbedQuery inquiry,
          GetMatchesFromEmbeddings v 3,
          SummarizeLongDocument (join_newline (fullDocuments matches)) inquiry,
          PromptFormat summary (prompt body) (map content (messages body)) (urls matches),
          EncodingFree,
          OpenAIStreamCall (model body) p
            (temperatureToUse (DEFAULT_TEMPERATURE env) (temperature body)) (OPENAI_API_KEY env) ms]
         @ rest, out)"
proof -
  have a: "assemble_part_000 env pinecone body =
      ((if pinecone then [] else [PineconeInit]) @
         [EncodingForModel (id' (model body)),
          InquiryChainCall (prompt body) (map content (messages body)),
          EmbedQuery inquiry,
          GetMatchesFromEmbeddings v 3,
          SummarizeLongDocument (join_newline (fullDocuments matches)) inquiry,
          PromptFormat summary (prompt body) (map content (messages body)) (urls matches)],
       Inr \<lparr> l_encoding = enc, l_matches = matches,
             l_temperatureToUse = temperatureToUse (DEFAULT_TEMPERATURE env) (temperature body),
             l_promptToSend = p \<rparr>)"
    using pc cd iq em gm su fo by (auto simp: assemble_part_000_def call_defs io_simps)
  show ?thesis
    by (cases "OpenAIStream env (model body) p
                 (temperatureToUse (DEFAULT_TEMPERATURE env) (temperature body))
                 (OPENAI_API_KEY env) ms")
       (auto simp: handler_part_000_after[OF a] ep s)
qed

lemma handler_edge_run:
  assumes pc: "pinecone \<or> pinecone_init env = Inr ()"
    and iq: "inquiryChain_call env (prompt body) (map content (messages body)) = Inr inquiry"
    and em: "embedQuery env inquiry = Inr v"
    and gm: "getMatchesFromEmbeddings env v 3 = Inr matches"
    and su: "summarizeLongDocument env (join_newline (fullDocuments matches)) inquiry = Inr summary"
    and fo: "promptQA_format env summary (prompt body) (map content (messages body)) (urls matches)
               = Inr p"
    and ep: "cl100k_base env p = Inr pt"
    and s: "select (cl100k_base env) (messages body) (tokenLimit (model body)) (int (length pt))
              = Inr (tc, ms)"
  shows "\<exists>rest out. EncodingFree \<notin> set rest
    \<and> handler_edge env pinecone body =
        ((if pinecone then [] else [PineconeInit]) @
         [TiktokenNew,
          InquiryChainCall (prompt body) (map content (messages body)),
          EmbedQuery inquiry,
          GetMatchesFromEmbeddings v 3,
          SummarizeLongDocument (join_newline (fullDocuments matches)) inquiry,
          PromptFormat summary (prompt body) (map content (messages body)) (urls matches),
          EncodingFree,
          OpenAIStreamCall (model body) p
            (temperatureToUse (DEFAULT_TEMPERATURE env) (temperature body)) (key body) ms]
         @ rest, out)"
proof -
  have a: "assemble_edge env pinecone body =
      ((if pinecone then [] else [PineconeInit]) @
         [TiktokenNew,
          InquiryChainCall (prompt body) (map content (messages body)),
          EmbedQuery inquiry,
          GetMatchesFromEmbeddings v 3,
          SummarizeLongDocument (join_newline (fullDocuments matches)) inquiry,
          PromptFormat summary (prompt body) (map content (messages body)) (urls matches)],
       Inr \<lparr> l_encoding = cl100k_base env, l_matches = matches,
             l_temperatureToUse = temperatureToUse (DEFAULT_TEMPERATURE env) (temperature body),
             l_promptToSend = p \<rparr>)"
    using pc iq em gm su fo by (auto simp: assemble_edge_def call_defs io_simps)
  show ?thesis
    by (cases "OpenAIStream env (model body) p
                 (temperatureToUse (DEFAULT_TEMPERATURE env) (temperature body))
                 (key body) ms")
       (auto simp: handler_edge_after[OF a] ep s)
qed

lemma handler_chat_run:
  assumes pc: "pinecone \<or> pinecone_init env = Inr ()"
    and cd: "codecs env (id' (model body)) = Some enc"
    and ne: "messages body \<noteq> []"
    and em: "embedQuery env (content (last (messages body))) = Inr v"
    and gm: "getMatchesFromEmbeddings env v 3 = Inr matches"
    and dt: "documentTokens enc (fullDocuments matches) = Inr dt"
    and su: "14000 < dt \<longrightarrow>
               (\<exists>summary. summarizeLongDocument env (join_newline (fullDocuments matches))
                             (content (last (messages body))) = Inr summary)"
    and fo: "promptQA_format env (join_newline (fullDocuments matches)) (prompt body)
               (map content (messages body)) (urls matches) = Inr p"
    and ep: "enc p = Inr pt"
    and s: "select enc (messages body) (tokenLimit (model body)) (int (length pt)) = Inr (tc, ms)"
  shows "\<exists>rest out. EncodingFree \<notin> set rest
    \<and> handler_chat env pinecone body =
        ((if pinecone then [] else [PineconeInit]) @
         [EncodingForModel (id' (model body)),
          EmbedQuery (content (last (messages body))),
          GetMatchesFromEmbeddings v 3] @
         (if 14000 < dt
          then [SummarizeLongDocument (join_newline (fullDocuments matches))
                  (content (last (messages body)))]
          else []) @
         [PromptFormat (join_newline (fullDocuments matches)) (prompt body)
            (map content (messages body)) (urls matches),
          EncodingFree,
          ChainCall \<lparr> streaming = True, verbose = True, modelName = ''gpt-3.5-turbo-16k'',
                      temperature_option = None \<rparr>
            (join_newline (fullDocuments matches)) p ms (urls matches)]
         @ rest, out)"
proof -
  have a: "assemble_chat env pinecone body =
      ((if pinecone then [] else [PineconeInit]) @
         [EncodingForModel (id' (model body)),
          EmbedQuery (content (last (messages body))),
          GetMatchesFromEmbeddings v 3] @
         (if 14000 < dt
          then [SummarizeLongDocument (join_newline (fullDocuments matches))
                  (content (last (messages body)))]
          else []) @
         [PromptFormat (join_newline (fullDocuments matches)) (prompt body)
            (map content (messages body)) (urls matches)],
       Inr \<lparr> l_encoding = enc, l_matches = matches,
             l_temperatureToUse = temperatureToUse (DEFAULT_TEMPERATURE env) (temperature body),
             l_promptToSend = p \<rparr>)"
    using pc cd ne em gm dt su fo
    by (auto simp: assemble_chat_def call_defs io_simps io_bind_pure)
  obtain evs failure where c:
    "chain_call env \<lparr> streaming = True, verbose = True, modelName = ''gpt-3.5-turbo-16k'',
                          temperature_option = None \<rparr>
                (join_newline (fullDocuments matches)) p ms (urls matches) = (evs, failure)"
    by (cases "chain_call env \<lparr> streaming = True, verbose = True, modelName = ''gpt-3.5-turbo-16k'',
                          temperature_option = None \<rparr>
                (join_newline (fullDocuments matches)) p ms (urls matches)") blast
  show ?thesis
    by (cases failure) (auto simp: handler_chat_after[OF a] ep s c)
qed

lemmas witness_defs = sample_defs dedup_defs tight_body_def accepts_def documentTokens_def
  temperatureToUse_def





text \<open>
  C5, as amended. In the two handlers that take the codec from \<^verbatim>\<open>encoding_for_model\<close>
  (\<open>handler_chat\<close> and \<open>handler_part_000\<close>), a request whose model id has no codec throws at
  that call, once the index client is set: nothing has been asked of the inquiry chain,
  of the embedder or of the index, the error is logged and the answer is a 500 response.
  The edge handler does not consult the codec registry at all.
\<close>

theorem unregistered_model_fails_before_retrieval:
  assumes "codecs env (id' (model body)) = None" and "pinecone \<or> pinecone_init env = Inr ()"
  shows "handler_chat env pinecone body =
           ((if pinecone then [] else [PineconeInit]) @
            [EncodingForModel (id' (model body)), ConsoleError UnsupportedModelError],
            Response500 None)
       \<and> handler_part_000 env pinecone body =
           ((if pinecone then [] else [PineconeInit]) @
            [EncodingForModel (id' (model body)), ConsoleError UnsupportedModelError],
            Response500 None)
       \<and> handler_edge (env \<lparr> codecs := registry \<rparr>) pinecone body = handler_edge env pinecone body"
proof (intro conjI)
  show "handler_chat env pinecone body =
           ((if pinecone then [] else [PineconeInit]) @
            [EncodingForModel (id' (model body)), ConsoleError UnsupportedModelError],
            Response500 None)"
    using assms
    by (auto simp: handler_chat_def assemble_chat_def call_defs io_simps try_catch_Inl statusText_def)
  show "handler_part_000 env pinecone body =
           ((if pinecone then [] else [PineconeInit]) @
            [EncodingForModel (id' (model body)), ConsoleError UnsupportedModelError],
            Response500 None)"
    using assms
    by (auto simp: handler_part_000_def assemble_part_000_def call_defs io_simps try_catch_Inl
        statusText_def)
  show "handler_edge (env \<lparr> codecs := registry \<rparr>) pinecone body = handler_edge env pinecone body"
    by (simp add: handler_edge_def assemble_edge_def call_defs)
qed

text \<open>
  The sample request with the model id \<open>''my-model''\<close>, which has no codec.
\<close>

theorem unregistered_model_fails_before_retrieval_witness:
  "codecs sample_env (id' (model unregistered_body)) = None
   \<and> handler_chat sample_env True unregistered_body =
       ([EncodingForModel ''my-model'', ConsoleError UnsupportedModelError], Response500 None)
   \<and> handler_part_000 sample_env True unregistered_body =
       ([EncodingForModel ''my-model'', ConsoleError UnsupportedModelError], Response500 None)"
  using unregistered_model_fails_before_retrieval[of sample_env unregistered_body True]
  by (simp add: sample_env_def unregistered_body_def sample_body_def)

text \<open>
  C5 as it is stated fails for the edge handler: for a model id without a codec it
  queries the index and returns the stream.
\<close>

theorem edge_unregistered_model_counterexample:
  "codecs sample_env (id' (model unregistered_body)) = None \<and>
   handler_edge sample_env True unregistered_body =
     ([TiktokenNew,
       InquiryChainCall ''2+2?'' [''hello'', ''hi'', ''2+2?''],
       EmbedQuery ''2+2?'',
       GetMatchesFromEmbeddings [4] 3,
       SummarizeLongDocument (''alpha'' @ [CHR 0x0A] @ ''beta'') ''2+2?'',
       PromptFormat ''summary'' ''2+2?'' [''hello'', ''hi'', ''2+2?''] [''a.html'', ''b.html''],
       EncodingFree,
       OpenAIStreamCall \<lparr> id' = ''my-model'', tokenLimit = 4000 \<rparr> ''summary2+2?hellohi2+2?''
         (1/5) ''k'' sample_messages],
      ResponseStream (stream_of sample_chunks))"
  by (simp add: handler_edge_def assemble_edge_def run_defs sample_defs dedup_defs
      unregistered_body_def)

text \<open>
  A document of 14001 tokens.
\<close>

lemma length_long_document: "length long_document = 14001"
  by (simp add: long_document_def)

lemma holds_long_document:
  "holds ''<|endoftext|>'' (long_document @ s) = holds ''<|endoftext|>'' s"
  "holds ''<|endoftext|>'' long_document = False"
  using holds_replicate_a[of 14001 s] holds_replicate_a[of 14001 "[]"]
  by (simp_all add: long_document_def)

text \<open>
  C3 on a document of 14001 tokens. \<open>handler_chat\<close> calls \<^verbatim>\<open>summarizeLongDocument\<close> once,
  with the concatenation and the last message; the value it returns, \<open>''summary''\<close>, is
  not used: \<^verbatim>\<open>promptQA.format\<close> and \<^verbatim>\<open>chain.call\<close> both get the concatenation itself.
\<close>

theorem summary_discarded_above_threshold:
  "documentTokens sample_encode (fullDocuments long_matches) = Inr 14001
   \<and> summarizeLongDocument long_env long_document ''2+2?'' = Inr ''summary''
   \<and> handler_chat long_env True sample_body =
     ([EncodingForModel ''gpt-3.5-turbo'',
       EmbedQuery ''2+2?'',
       GetMatchesFromEmbeddings [4] 3,
       SummarizeLongDocument long_document ''2+2?'',
       PromptFormat long_document ''2+2?'' [''hello'', ''hi'', ''2+2?''] [''a.html''],
       EncodingFree,
       ChainCall \<lparr> streaming = True, verbose = True, modelName = ''gpt-3.5-turbo-16k'',
                   temperature_option = None \<rparr>
         long_document (long_document @ ''2+2?hellohi2+2?'') [] [''a.html''],
       Res (Write ''The''), Res (Write '' answer''), Res (Write '' is''), Res (Write '' 4.''),
       Res End],
      Finished)"
  by (simp add: handler_chat_def assemble_chat_def run_defs sample_defs dedup_defs
      long_env_def long_matches_def length_long_document holds_long_document)

text \<open>
  C9 on a request with temperature 0.2. \<open>handler_chat\<close> computes \<^verbatim>\<open>temperatureToUse\<close> and
  then builds the \<^verbatim>\<open>ChatOpenAI\<close> model without a temperature: the generation does not
  get the request's value.
\<close>

theorem temperature_not_passed_to_chain:
  "temperature sample_body = Value (1/5)
   \<and> handler_chat sample_env True sample_body =
     ([EncodingForModel ''gpt-3.5-turbo'',
       EmbedQuery ''2+2?'',
       GetMatchesFromEmbeddings [4] 3,
       PromptFormat (''alpha'' @ [CHR 0x0A] @ ''beta'') ''2+2?'' [''hello'', ''hi'', ''2+2?'']
         [''a.html'', ''b.html''],
       EncodingFree,
       ChainCall \<lparr> streaming = True, verbose = True, modelName = ''gpt-3.5-turbo-16k'',
                   temperature_option = None \<rparr>
         (''alpha'' @ [CHR 0x0A] @ ''beta'') (''alpha'' @ [CHR 0x0A] @ ''beta2+2?hellohi2+2?'')
         sample_messages [''a.html'', ''b.html''],
       Res (Write ''The''), Res (Write '' answer''), Res (Write '' is''), Res (Write '' 4.''),
       Res End],
      Finished)"
  by (simp add: handler_chat_def assemble_chat_def run_defs sample_defs dedup_defs)

text \<open>
  \<^verbatim>\<open>temperatureToUse\<close> is the request's temperature, or the default when that is
  \<^verbatim>\<open>null\<close> or \<^verbatim>\<open>undefined\<close>.
\<close>

lemma temperatureToUse_cases:
  "temperatureToUse d (Value v) = v"
  "temperatureToUse d Null = d"
  "temperatureToUse d Undefined = d"
  by (simp_all add: temperatureToUse_def)

text \<open>
  What can be found in the effects of a handler, on every path: \<^verbatim>\<open>promptQA.format\<close> is
  called with the question and the contents of all messages; the generation is called with
  the text \<^verbatim>\<open>promptQA.format\<close> returned and with the turns the loop selected; the handlers
  that call \<^verbatim>\<open>OpenAIStream\<close> pass \<^verbatim>\<open>temperatureToUse\<close>, \<open>handler_chat\<close> passes no temperature.
\<close>

lemma part_000_events:
  "(\<forall>s q h u. PromptFormat s q h u \<in> set (fst (handler_part_000 env pinecone body)) \<longrightarrow>
       q = prompt body \<and> h = map content (messages body))
 \<and> (\<forall>m p tt k ms. OpenAIStreamCall m p tt k ms \<in> set (fst (handler_part_000 env pinecone body)) \<longrightarrow>
       tt = temperatureToUse (DEFAULT_TEMPERATURE env) (temperature body)
     \<and> (\<exists>s u. promptQA_format env s (prompt body) (map content (messages body)) u = Inr p)
     \<and> (\<exists>enc pt tc. codecs env (id' (model body)) = Some enc \<and> enc p = Inr pt
           \<and> select enc (messages body) (tokenLimit (model body)) (int (length pt))
               = Inr (tc, ms)))
 \<and> (\<forall>c s p ms u. ChainCall c s p ms u \<notin> set (fst (handler_part_000 env pinecone body)))"
proof -
  obtain t r where a: "assemble_part_000 env pinecone body = (t, r)"
    by (cases "assemble_part_000 env pinecone body") blast
  show ?thesis
  proof (cases r)
    case (Inl e)
    then show ?thesis
      using assemble_part_000_Inl[of env pinecone body t e] handler_part_000_Inl[of env pinecone body t e] a
      by auto
  next
    case (Inr l)
    with a have a': "assemble_part_000 env pinecone body = (t, Inr l)" by simp
    from assemble_part_000_Inr[OF a'] obtain inquiry embeddings summary where
      cd: "codecs env (id' (model body)) = Some (l_encoding l)"
      and f: "promptQA_format env summary (prompt body) (map content (messages body)) (urls (l_matches l))
            = Inr (l_promptToSend l)"
      and tu: "l_temperatureToUse l = temperatureToUse (DEFAULT_TEMPERATURE env) (temperature body)"
      and t: "t = (if pinecone then [] else [PineconeInit]) @
          [EncodingForModel (id' (model body)),
           InquiryChainCall (prompt body) (map content (messages body)),
           EmbedQuery inquiry,
           GetMatchesFromEmbeddings embeddings 3,
           SummarizeLongDocument (join_newline (fullDocuments (l_matches l))) inquiry,
           PromptFormat summary (prompt body) (map content (messages body)) (urls (l_matches l))]"
      by blast
    note h = handler_part_000_after[OF a']
    show ?thesis
    proof (intro conjI allI impI)
      fix s q h' u
      assume "PromptFormat s q h' u \<in> set (fst (handler_part_000 env pinecone body))"
      then have "PromptFormat s q h' u \<in> set t"
        by (auto simp: h split: sum.splits prod.splits)
      then show "q = prompt body" "h' = map content (messages body)"
        by (auto simp: t split: if_splits)
    next
      fix m p tt k ms
      assume mem: "OpenAIStreamCall m p tt k ms \<in> set (fst (handler_part_000 env pinecone body))"
      have nt: "OpenAIStreamCall m p tt k ms \<notin> set t" by (auto simp: t)
      from mem nt obtain pt tc where
        e: "l_encoding l (l_promptToSend l) = Inr pt"
        and s: "select (l_encoding l) (messages body) (tokenLimit (model body)) (int (length pt))
                  = Inr (tc, ms)"
        and p: "p = l_promptToSend l" and tt: "tt = l_temperatureToUse l"
        by (auto simp: h split: sum.splits prod.splits)
      show "tt = temperatureToUse (DEFAULT_TEMPERATURE env) (temperature body)"
        using tt tu by simp
      show "\<exists>s u. promptQA_format env s (prompt body) (map content (messages body)) u = Inr p"
        using p f by blast
      show "(\<exists>enc pt tc. codecs env (id' (model body)) = Some enc \<and> enc p = Inr pt
          \<and> select enc (messages body) (tokenLimit (model body)) (int (length pt))
              = Inr (tc, ms))"
        using e s p cd by auto
    next
      fix c s p ms u
      have "ChainCall c s p ms u \<notin> set t" by (auto simp: t)
      then show "ChainCall c s p ms u \<notin> set (fst (handler_part_000 env pinecone body))"
        by (auto simp: h split: sum.splits prod.splits)
    qed
  qed
qed

lemma edge_events:
  "(\<forall>s q h u. PromptFormat s q h u \<in> set (fst (handler_edge env pinecone body)) \<longrightarrow>
       q = prompt body \<and> h = map content (messages body))
 \<and> (\<forall>m p tt k ms. OpenAIStreamCall m p tt k ms \<in> set (fst (handler_edge env pinecone body)) \<longrightarrow>
       tt = temperatureToUse (DEFAULT_TEMPERATURE env) (temperature body)
     \<and> (\<exists>s u. promptQA_format env s (prompt body) (map content (messages body)) u = Inr p)
     \<and> (\<exists>pt tc. cl100k_base env p = Inr pt
           \<and> select (cl100k_base env) (messages body) (tokenLimit (model body))
                 (int (length pt)) = Inr (tc, ms)))
 \<and> (\<forall>c s p ms u. ChainCall c s p ms u \<notin> set (fst (handler_edge env pinecone body)))"
proof -
  obtain t r where a: "assemble_edge env pinecone body = (t, r)"
    by (cases "assemble_edge env pinecone body") blast
  show ?thesis
  proof (cases r)
    case (Inl e)
    then show ?thesis
      using assemble_edge_Inl[of env pinecone body t e] handler_edge_Inl[of env pinecone body t e] a
      by auto
  next
    case (Inr l)
    with a have a': "assemble_edge env pinecone body = (t, Inr l)" by simp
    from assemble_edge_Inr[OF a'] obtain inquiry embeddings summary where
      cd: "l_encoding l = cl100k_base env"
      and f: "promptQA_format env summary (prompt body) (map content (messages body)) (urls (l_matches l))
            = Inr (l_promptToSend l)"
      and tu: "l_temperatureToUse l = temperatureToUse (DEFAULT_TEMPERATURE env) (temperature body)"
      and t: "t = (if pinecone then [] else [PineconeInit]) @
          [TiktokenNew,
           InquiryChainCall (prompt body) (map content (messages body)),
           EmbedQuery inquiry,
           GetMatchesFromEmbeddings embeddings 3,
           SummarizeLongDocument (join_newline (fullDocuments (l_matches l))) inquiry,
           PromptFormat summary (prompt body) (map content (messages body)) (urls (l_matches l))]"
      by blast
    note h = handler_edge_after[OF a']
    show ?thesis
    proof (intro conjI allI impI)
      fix s q h' u
      assume "PromptFormat s q h' u \<in> set (fst (handler_edge env pinecone body))"
      then have "PromptFormat s q h' u \<in> set t"
        by (auto simp: h split: sum.splits prod.splits)
      then show "q = prompt body" "h' = map content (messages body)"
        by (auto simp: t split: if_splits)
    next
      fix m p tt k ms
      assume mem: "OpenAIStreamCall m p tt k ms \<in> set (fst (handler_edge env pinecone body))"
      have nt: "OpenAIStreamCall m p tt k ms \<notin> set t" by (auto simp: t)
      from mem nt obtain pt tc where
        e: "l_encoding l (l_promptToSend l) = Inr pt"
        and s: "select (l_encoding l) (messages body) (tokenLimit (model body)) (int (length pt))
                  = Inr (tc, ms)"
        and p: "p = l_promptToSend l" and tt: "tt = l_temperatureToUse l"
        by (auto simp: h split: sum.splits prod.splits)
      show "tt = temperatureToUse (DEFAULT_TEMPERATURE env) (temperature body)"
        using tt tu by simp
      show "\<exists>s u. promptQA_format env s (prompt body) (map content (messages body)) u = Inr p"
        using p f by blast
      show "(\<exists>pt tc. cl100k_base env p = Inr pt
          \<and> select (cl100k_base env) (messages body) (tokenLimit (model body))
                (int (length pt)) = Inr (tc, ms))"
        using e s p cd by auto
    next
      fix c s p ms u
      have "ChainCall c s p ms u \<notin> set t" by (auto simp: t)
      then show "ChainCall c s p ms u \<notin> set (fst (handler_edge env pinecone body))"
        by (auto simp: h split: sum.splits prod.splits)
    qed
  qed
qed

lemma chat_events:
  "(\<forall>s q h u. PromptFormat s q h u \<in> set (fst (handler_chat env pinecone body)) \<longrightarrow>
       q = prompt body \<and> h = map content (messages body))
 \<and> (\<forall>c s p ms u. ChainCall c s p ms u \<in> set (fst (handler_chat env pinecone body)) \<longrightarrow>
       temperature_option c = None
     \<and> (\<exists>s' u'. promptQA_format env s' (prompt body) (map content (messages body)) u' = Inr p)
     \<and> (\<exists>enc pt tc. codecs env (id' (model body)) = Some enc \<and> enc p = Inr pt
           \<and> select enc (messages body) (tokenLimit (model body)) (int (length pt))
               = Inr (tc, ms)))
 \<and> (\<forall>m p tt k ms. OpenAIStreamCall m p tt k ms \<notin> set (fst (handler_chat env pinecone body)))"
proof -
  obtain t r where a: "assemble_chat env pinecone body = (t, r)"
    by (cases "assemble_chat env pinecone body") blast
  show ?thesis
  proof (cases r)
    case (Inl e)
    then show ?thesis
      using assemble_chat_Inl[of env pinecone body t e] handler_chat_Inl[of env pinecone body t e] a
      by auto
  next
    case (Inr l)
    with a have a': "assemble_chat env pinecone body = (t, Inr l)" by simp
    from assemble_chat_Inr[OF a'] obtain embeddings and dt :: int where
      cd: "codecs env (id' (model body)) = Some (l_encoding l)"
      and f: "promptQA_format env (join_newline (fullDocuments (l_matches l))) (prompt body)
            (map content (messages body)) (urls (l_matches l)) = Inr (l_promptToSend l)"
      and t: "t = (if pinecone then [] else [PineconeInit]) @
          [EncodingForModel (id' (model body)),
           EmbedQuery (content (last (messages body))),
           GetMatchesFromEmbeddings embeddings 3] @
          (if dt > 14000
           then [SummarizeLongDocument (join_newline (fullDocuments (l_matches l)))
                   (content (last (messages body)))]
           else []) @
          [PromptFormat (join_newline (fullDocuments (l_matches l))) (prompt body)
             (map content (messages body)) (urls (l_matches l))]"
      by blast
    note h = handler_chat_after[OF a']
    show ?thesis
    proof (intro conjI allI impI)
      fix s q h' u
      assume "PromptFormat s q h' u \<in> set (fst (handler_chat env pinecone body))"
      then have "PromptFormat s q h' u \<in> set t"
        by (auto simp: h split: sum.splits prod.splits option.splits)
      then show "q = prompt body" "h' = map content (messages body)"
        by (auto simp: t split: if_splits)
    next
      fix c s' p ms u
      assume mem: "ChainCall c s' p ms u \<in> set (fst (handler_chat env pinecone body))"
      have nt: "ChainCall c s' p ms u \<notin> set t" by (auto simp: t)
      from mem nt obtain pt tc where
        e: "l_encoding l (l_promptToSend l) = Inr pt"
        and s: "select (l_encoding l) (messages body) (tokenLimit (model body)) (int (length pt))
                  = Inr (tc, ms)"
        and p: "p = l_promptToSend l"
        and c: "c = \<lparr> streaming = True, verbose = True, modelName = ''gpt-3.5-turbo-16k'',
                          temperature_option = None \<rparr>"
        by (auto simp: h split: sum.splits prod.splits option.splits)
      show "temperature_option c = None" using c by simp
      show "\<exists>s u. promptQA_format env s (prompt body) (map content (messages body)) u = Inr p"
        using p f by blast
      show "\<exists>enc pt tc. codecs env (id' (model body)) = Some enc \<and> enc p = Inr pt
           \<and> select enc (messages body) (tokenLimit (model body)) (int (length pt))
               = Inr (tc, ms)"
        using e s p cd by auto
    next
      fix m p tt k ms
      have "OpenAIStreamCall m p tt k ms \<notin> set t" by (auto simp: t)
      then show "OpenAIStreamCall m p tt k ms \<notin> set (fst (handler_chat env pinecone body))"
        by (auto simp: h split: sum.splits prod.splits option.splits)
    qed
  qed
qed

lemmas chat_PromptFormat = chat_events[THEN conjunct1, rule_format]
lemmas chat_ChainCall = chat_events[THEN conjunct2, THEN conjunct1, rule_format]
lemmas chat_no_OpenAIStreamCall = chat_events[THEN conjunct2, THEN conjunct2, rule_format]
lemmas edge_PromptFormat = edge_events[THEN conjunct1, rule_format]
lemmas edge_OpenAIStreamCall = edge_events[THEN conjunct2, THEN conjunct1, rule_format]
lemmas edge_no_ChainCall = edge_events[THEN conjunct2, THEN conjunct2, rule_format]
lemmas part_000_PromptFormat = part_000_events[THEN conjunct1, rule_format]
lemmas part_000_OpenAIStreamCall = part_000_events[THEN conjunct2, THEN conjunct1, rule_format]
lemmas part_000_no_ChainCall = part_000_events[THEN conjunct2, THEN conjunct2, rule_format]

text \<open>
  The first part of a handler does not read \<^verbatim>\<open>model.tokenLimit\<close>.
\<close>

lemma assemble_limit:
  "assemble_chat env pinecone (body \<lparr> model := model body \<lparr> tokenLimit := L \<rparr> \<rparr>)
     = assemble_chat env pinecone body"
  "assemble_edge env pinecone (body \<lparr> model := model body \<lparr> tokenLimit := L \<rparr> \<rparr>)
     = assemble_edge env pinecone body"
  "assemble_part_000 env pinecone (body \<lparr> model := model body \<lparr> tokenLimit := L \<rparr> \<rparr>)
     = assemble_part_000 env pinecone body"
  by (simp_all add: assemble_chat_def assemble_edge_def assemble_part_000_def cong: if_cong)

lemma chat_PromptFormat_assemble:
  "PromptFormat s q h u \<in> set (fst (handler_chat env pinecone body)) \<longleftrightarrow>
   PromptFormat s q h u \<in> set (fst (assemble_chat env pinecone body))"
proof -
  obtain t r where a: "assemble_chat env pinecone body = (t, r)"
    by (cases "assemble_chat env pinecone body") blast
  show ?thesis
  proof (cases r)
    case (Inl e)
    then show ?thesis using a handler_chat_Inl[of env pinecone body t e] by simp
  next
    case (Inr l)
    with a have a': "assemble_chat env pinecone body = (t, Inr l)" by simp
    show ?thesis
      by (auto simp: handler_chat_after[OF a'] a' split: sum.splits prod.splits option.splits)
  qed
qed

lemma chat_PromptFormat_limit:
  "PromptFormat s q h u
     \<in> set (fst (handler_chat env pinecone (body \<lparr> model := model body \<lparr> tokenLimit := L \<rparr> \<rparr>)))
   \<longleftrightarrow> PromptFormat s q h u \<in> set (fst (handler_chat env pinecone body))"
  by (simp only: chat_PromptFormat_assemble assemble_limit)

lemma edge_PromptFormat_assemble:
  "PromptFormat s q h u \<in> set (fst (handler_edge env pinecone body)) \<longleftrightarrow>
   PromptFormat s q h u \<in> set (fst (assemble_edge env pinecone body))"
proof -
  obtain t r where a: "assemble_edge env pinecone body = (t, r)"
    by (cases "assemble_edge env pinecone body") blast
  show ?thesis
  proof (cases r)
    case (Inl e)
    then show ?thesis using a handler_edge_Inl[of env pinecone body t e] by simp
  next
    case (Inr l)
    with a have a': "assemble_edge env pinecone body = (t, Inr l)" by simp
    show ?thesis
      by (auto simp: handler_edge_after[OF a'] a' split: sum.splits prod.splits)
  qed
qed

lemma edge_PromptFormat_limit:
  "PromptFormat s q h u
     \<in> set (fst (handler_edge env pinecone (body \<lparr> model := model body \<lparr> tokenLimit := L \<rparr> \<rparr>)))
   \<longleftrightarrow> PromptFormat s q h u \<in> set (fst (handler_edge env pinecone body))"
  by (simp only: edge_PromptFormat_assemble assemble_limit)

lemma part_000_PromptFormat_assemble:
  "PromptFormat s q h u \<in> set (fst (handler_part_000 env pinecone body)) \<longleftrightarrow>
   PromptFormat s q h u \<in> set (fst (assemble_part_000 env pinecone body))"
proof -
  obtain t r where a: "assemble_part_000 env pinecone body = (t, r)"
    by (cases "assemble_part_000 env pinecone body") blast
  show ?thesis
  proof (cases r)
    case (Inl e)
    then show ?thesis using a handler_part_000_Inl[of env pinecone body t e] by simp
  next
    case (Inr l)
    with a have a': "assemble_part_000 env pinecone body = (t, Inr l)" by simp
    show ?thesis
      by (auto simp: handler_part_000_after[OF a'] a' split: sum.splits prod.splits)
  qed
qed

lemma part_000_PromptFormat_limit:
  "PromptFormat s q h u
     \<in> set (fst (handler_part_000 env pinecone (body \<lparr> model := model body \<lparr> tokenLimit := L \<rparr> \<rparr>)))
   \<longleftrightarrow> PromptFormat s q h u \<in> set (fst (handler_part_000 env pinecone body))"
  by (simp only: part_000_PromptFormat_assemble assemble_limit)

text \<open>
  C10. In each handler, when the collaborators called before the selection loop return and
  the codec encodes what it is given, \<^verbatim>\<open>promptQA.format\<close> is called with the contents of all
  messages of the request as conversation history, and the generation is called with the
  text it returned as prompt and with the turns chosen by the selection loop as the separate
  messages argument. On every path, a call of \<^verbatim>\<open>promptQA.format\<close> gets the whole history, and
  a generation call gets the text returned by \<^verbatim>\<open>promptQA.format\<close> on the whole history. The
  call of \<^verbatim>\<open>promptQA.format\<close> is the same for every \<^verbatim>\<open>model.tokenLimit\<close>.
\<close>

theorem prompt_embeds_whole_history:
  "((pinecone \<or> pinecone_init env = Inr ())
    \<and> codecs env (id' (model body)) = Some enc
    \<and> messages body \<noteq> []
    \<and> embedQuery env (content (last (messages body))) = Inr v
    \<and> getMatchesFromEmbeddings env v 3 = Inr matches
    \<and> documentTokens enc (fullDocuments matches) = Inr dt
    \<and> (14000 < dt \<longrightarrow>
          (\<exists>summary. summarizeLongDocument env (join_newline (fullDocuments matches))
                        (content (last (messages body))) = Inr summary))
    \<and> promptQA_format env (join_newline (fullDocuments matches)) (prompt body)
          (map content (messages body)) (urls matches) = Inr p
    \<and> enc p = Inr pt
    \<and> (\<forall>m\<in>set (messages body). accepts enc m)
    \<longrightarrow> (\<exists>tc ms rest out.
        select enc (messages body) (tokenLimit (model body)) (int (length pt)) = Inr (tc, ms)
      \<and> handler_chat env pinecone body =
          ((if pinecone then [] else [PineconeInit]) @
           [EncodingForModel (id' (model body)),
            EmbedQuery (content (last (messages body))),
            GetMatchesFromEmbeddings v 3] @
           (if 14000 < dt
            then [SummarizeLongDocument (join_newline (fullDocuments matches))
                    (content (last (messages body)))]
            else []) @
           [PromptFormat (join_newline (fullDocuments matches)) (prompt body)
              (map content (messages body)) (urls matches),
            EncodingFree,
            ChainCall \<lparr> streaming = True, verbose = True, modelName = ''gpt-3.5-turbo-16k'',
                        temperature_option = None \<rparr>
              (join_newline (fullDocuments matches)) p ms (urls matches)]
           @ rest, out)))
 \<and> ((pinecone \<or> pinecone_init env = Inr ())
    \<and> inquiryChain_call env (prompt body) (map content (messages body)) = Inr inquiry
    \<and> embedQuery env inquiry = Inr w
    \<and> getMatchesFromEmbeddings env w 3 = Inr found
    \<and> summarizeLongDocument env (join_newline (fullDocuments found)) inquiry = Inr summary
    \<and> promptQA_format env summary (prompt body) (map content (messages body)) (urls found)
          = Inr r
    \<and> cl100k_base env r = Inr rt
    \<and> (\<forall>m\<in>set (messages body). accepts (cl100k_base env) m)
    \<longrightarrow> (\<exists>tc ms rest out.
        select (cl100k_base env) (messages body) (tokenLimit (model body)) (int (length rt)) = Inr (tc, ms)
      \<and> handler_edge env pinecone body =
          ((if pinecone then [] else [PineconeInit]) @
           [TiktokenNew,
            InquiryChainCall (prompt body) (map content (messages body)),
            EmbedQuery inquiry,
            GetMatchesFromEmbeddings w 3,
            SummarizeLongDocument (join_newline (fullDocuments found)) inquiry,
            PromptFormat summary (prompt body) (map content (messages body)) (urls found),
            EncodingFree,
            OpenAIStreamCall (model body) r
              (temperatureToUse (DEFAULT_TEMPERATURE env) (temperature body)) (key body) ms]
           @ rest, out)))
 \<and> ((pinecone \<or> pinecone_init env = Inr ())
    \<and> codecs env (id' (model body)) = Some enc
    \<and> inquiryChain_call env (prompt body) (map content (messages body)) = Inr inquiry
    \<and> embedQuery env inquiry = Inr w
    \<and> getMatchesFromEmbeddings env w 3 = Inr found
    \<and> summarizeLongDocument env (join_newline (fullDocuments found)) inquiry = Inr summary
    \<and> promptQA_format env summary (prompt body) (map content (messages body)) (urls found)
          = Inr r
    \<and> enc r = Inr rt
    \<and> (\<forall>m\<in>set (messages body). accepts (enc) m)
    \<longrightarrow> (\<exists>tc ms rest out.
        select enc (messages body) (tokenLimit (model body)) (int (length rt)) = Inr (tc, ms)
      \<and> handler_part_000 env pinecone body =
          ((if pinecone then [] else [PineconeInit]) @
           [EncodingForModel (id' (model body)),
            InquiryChainCall (prompt body) (map content (messages body)),
            EmbedQuery inquiry,
            GetMatchesFromEmbeddings w 3,
            SummarizeLongDocument (join_newline (fullDocuments found)) inquiry,
            PromptFormat summary (prompt body) (map content (messages body)) (urls found),
            EncodingFree,
            OpenAIStreamCall (model body) r
              (temperatureToUse (DEFAULT_TEMPERATURE env) (temperature body)) (OPENAI_API_KEY env) ms]
           @ rest, out)))
 \<and> (\<forall>ev \<in> set (fst (handler_chat env pinecone body)) \<union> set (fst (handler_edge env pinecone body))
          \<union> set (fst (handler_part_000 env pinecone body)).
      (\<forall>s q h u. ev = PromptFormat s q h u \<longrightarrow> q = prompt body \<and> h = map content (messages body))
    \<and> (\<forall>m q tt k ms. ev = OpenAIStreamCall m q tt k ms \<longrightarrow>
          (\<exists>s u. promptQA_format env s (prompt body) (map content (messages body)) u = Inr q)
        \<and> (\<exists>e qt tc. (e = cl100k_base env \<or> codecs env (id' (model body)) = Some e)
              \<and> e q = Inr qt
              \<and> select e (messages body) (tokenLimit (model body)) (int (length qt))
                  = Inr (tc, ms)))
    \<and> (\<forall>c s q ms u. ev = ChainCall c s q ms u \<longrightarrow>
          (\<exists>s' u'. promptQA_format env s' (prompt body) (map content (messages body)) u' = Inr q)
        \<and> (\<exists>e qt tc. (e = cl100k_base env \<or> codecs env (id' (model body)) = Some e)
              \<and> e q = Inr qt
              \<and> select e (messages body) (tokenLimit (model body)) (int (length qt))
                  = Inr (tc, ms))))
 \<and> (\<forall>s q h u. PromptFormat s q h u
         \<in> set (fst (handler_chat env pinecone (body \<lparr> model := model body \<lparr> tokenLimit := L \<rparr> \<rparr>)))
       \<longleftrightarrow> PromptFormat s q h u \<in> set (fst (handler_chat env pinecone body)))
 \<and> (\<forall>s q h u. PromptFormat s q h u
         \<in> set (fst (handler_edge env pinecone (body \<lparr> model := model body \<lparr> tokenLimit := L \<rparr> \<rparr>)))
       \<longleftrightarrow> PromptFormat s q h u \<in> set (fst (handler_edge env pinecone body)))
 \<and> (\<forall>s q h u. PromptFormat s q h u
         \<in> set (fst (handler_part_000 env pinecone (body \<lparr> model := model body \<lparr> tokenLimit := L \<rparr> \<rparr>)))
       \<longleftrightarrow> PromptFormat s q h u \<in> set (fst (handler_part_000 env pinecone body)))"
proof (intro conjI ballI allI impI)
  assume "(pinecone \<or> pinecone_init env = Inr ())
    \<and> codecs env (id' (model body)) = Some enc
    \<and> messages body \<noteq> []
    \<and> embedQuery env (content (last (messages body))) = Inr v
    \<and> getMatchesFromEmbeddings env v 3 = Inr matches
    \<and> documentTokens enc (fullDocuments matches) = Inr dt
    \<and> (14000 < dt \<longrightarrow>
          (\<exists>summary. summarizeLongDocument env (join_newline (fullDocuments matches))
                        (content (last (messages body))) = Inr summary))
    \<and> promptQA_format env (join_newline (fullDocuments matches)) (prompt body)
          (map content (messages body)) (urls matches) = Inr p
    \<and> enc p = Inr pt
    \<and> (\<forall>m\<in>set (messages body). accepts enc m)"
  then have h: "(pinecone \<or> pinecone_init env = Inr ())
    \<and> codecs env (id' (model body)) = Some enc
    \<and> messages body \<noteq> []
    \<and> embedQuery env (content (last (messages body))) = Inr v
    \<and> getMatchesFromEmbeddings env v 3 = Inr matches
    \<and> documentTokens enc (fullDocuments matches) = Inr dt
    \<and> (14000 < dt \<longrightarrow>
          (\<exists>summary. summarizeLongDocument env (join_newline (fullDocuments matches))
                        (content (last (messages body))) = Inr summary))
    \<and> promptQA_format env (join_newline (fullDocuments matches)) (prompt body)
          (map content (messages body)) (urls matches) = Inr p
    \<and> enc p = Inr pt
    \<and> (\<forall>m\<in>set (messages body). accepts enc m)" .
  then have "\<forall>m\<in>set (messages body). accepts enc m" by blast
  from select_returns[OF this, where L="tokenLimit (model body)" and p="int (length pt)"]
  obtain tc ms where s: "select enc (messages body) (tokenLimit (model body)) (int (length pt))
      = Inr (tc, ms)" by blast
  from h s handler_chat_run[of pinecone env body enc v matches dt p pt tc ms]
  show "(\<exists>tc ms rest out.
        select enc (messages body) (tokenLimit (model body)) (int (length pt)) = Inr (tc, ms)
      \<and> handler_chat env pinecone body =
          ((if pinecone then [] else [PineconeInit]) @
           [EncodingForModel (id' (model body)),
            EmbedQuery (content (last (messages body))),
            GetMatchesFromEmbeddings v 3] @
           (if 14000 < dt
            then [SummarizeLongDocument (join_newline (fullDocuments matches))
                    (content (last (messages body)))]
            else []) @
           [PromptFormat (join_newline (fullDocuments matches)) (prompt body)
              (map content (messages body)) (urls matches),
            EncodingFree,
            ChainCall \<lparr> streaming = True, verbose = True, modelName = ''gpt-3.5-turbo-16k'',
                        temperature_option = None \<rparr>
              (join_newline (fullDocuments matches)) p ms (urls matches)]
           @ rest, out))"
    by blast
next
  assume "(pinecone \<or> pinecone_init env = Inr ())
    \<and> inquiryChain_call env (prompt body) (map content (messages body)) = Inr inquiry
    \<and> embedQuery env inquiry = Inr w
    \<and> getMatchesFromEmbeddings env w 3 = Inr found
    \<and> summarizeLongDocument env (join_newline (fullDocuments found)) inquiry = Inr summary
    \<and> promptQA_format env summary (prompt body) (map content (messages body)) (urls found)
          = Inr r
    \<and> cl100k_base env r = Inr rt
    \<and> (\<forall>m\<in>set (messages body). accepts (cl100k_base env) m)"
  then have h: "(pinecone \<or> pinecone_init env = Inr ())
    \<and> inquiryChain_call env (prompt body) (map content (messages body)) = Inr inquiry
    \<and> embedQuery env inquiry = Inr w
    \<and> getMatchesFromEmbeddings env w 3 = Inr found
    \<and> summarizeLongDocument env (join_newline (fullDocuments found)) inquiry = Inr summary
    \<and> promptQA_format env summary (prompt body) (map content (messages body)) (urls found)
          = Inr r
    \<and> cl100k_base env r = Inr rt
    \<and> (\<forall>m\<in>set (messages body). accepts (cl100k_base env) m)" .
  then have "\<forall>m\<in>set (messages body). accepts (cl100k_base env) m" by blast
  from select_returns[OF this, where L="tokenLimit (model body)" and p="int (length rt)"]
  obtain tc ms where s: "select (cl100k_base env) (messages body) (tokenLimit (model body))
      (int (length rt)) = Inr (tc, ms)" by blast
  from h s handler_edge_run[of pinecone env body inquiry w found summary r rt tc ms]
  show "(\<exists>tc ms rest out.
        select (cl100k_base env) (messages body) (tokenLimit (model body)) (int (length rt)) = Inr (tc, ms)
      \<and> handler_edge env pinecone body =
          ((if pinecone then [] else [PineconeInit]) @
           [TiktokenNew,
            InquiryChainCall (prompt body) (map content (messages body)),
            EmbedQuery inquiry,
            GetMatchesFromEmbeddings w 3,
            SummarizeLongDocument (join_newline (fullDocuments found)) inquiry,
            PromptFormat summary (prompt body) (map content (messages body)) (urls found),
            EncodingFree,
            OpenAIStreamCall (model body) r
              (temperatureToUse (DEFAULT_TEMPERATURE env) (temperature body)) (key body) ms]
           @ rest, out))"
    by blast
next
  assume "(pinecone \<or> pinecone_init env = Inr ())
    \<and> codecs env (id' (model body)) = Some enc
    \<and> inquiryChain_call env (prompt body) (map content (messages body)) = Inr inquiry
    \<and> embedQuery env inquiry = Inr w
    \<and> getMatchesFromEmbeddings env w 3 = Inr found
    \<and> summarizeLongDocument env (join_newline (fullDocuments found)) inquiry = Inr summary
    \<and> promptQA_format env summary (prompt body) (map content (messages body)) (urls found)
          = Inr r
    \<and> enc r = Inr rt
    \<and> (\<forall>m\<in>set (messages body). accepts (enc) m)"
  then have h: "(pinecone \<or> pinecone_init env = Inr ())
    \<and> codecs env (id' (model body)) = Some enc
    \<and> inquiryChain_call env (prompt body) (map content (messages body)) = Inr inquiry
    \<and> embedQuery env inquiry = Inr w
    \<and> getMatchesFromEmbeddings env w 3 = Inr found
    \<and> summarizeLongDocument env (join_newline (fullDocuments found)) inquiry = Inr summary
    \<and> promptQA_format env summary (prompt body) (map content (messages body)) (urls found)
          = Inr r
    \<and> enc r = Inr rt
    \<and> (\<forall>m\<in>set (messages body). accepts (enc) m)" .
  then have "\<forall>m\<in>set (messages body). accepts enc m" by blast
  from select_returns[OF this, where L="tokenLimit (model body)" and p="int (length rt)"]
  obtain tc ms where s: "select enc (messages body) (tokenLimit (model body)) (int (length rt))
      = Inr (tc, ms)" by blast
  from h s handler_part_000_run[of pinecone env body enc inquiry w found summary r rt tc ms]
  show "(\<exists>tc ms rest out.
        select enc (messages body) (tokenLimit (model body)) (int (length rt)) = Inr (tc, ms)
      \<and> handler_part_000 env pinecone body =
          ((if pinecone then [] else [PineconeInit]) @
           [EncodingForModel (id' (model body)),
            InquiryChainCall (prompt body) (map content (messages body)),
            EmbedQuery inquiry,
            GetMatchesFromEmbeddings w 3,
            SummarizeLongDocument (join_newline (fullDocuments found)) inquiry,
            PromptFormat summary (prompt body) (map content (messages body)) (urls found),
            EncodingFree,
            OpenAIStreamCall (model body) r
              (temperatureToUse (DEFAULT_TEMPERATURE env) (temperature body)) (OPENAI_API_KEY env) ms]
           @ rest, out))"
    by blast
next
  fix ev s q h u
  assume "ev \<in> set (fst (handler_chat env pinecone body)) \<union> set (fst (handler_edge env pinecone body))
          \<union> set (fst (handler_part_000 env pinecone body))"
    and "ev = PromptFormat s q h u"
  then consider "PromptFormat s q h u \<in> set (fst (handler_chat env pinecone body))"
    | "PromptFormat s q h u \<in> set (fst (handler_edge env pinecone body))"
    | "PromptFormat s q h u \<in> set (fst (handler_part_000 env pinecone body))"
    by blast
  then have "q = prompt body \<and> h = map content (messages body)"
  proof cases
    case 1
    from chat_PromptFormat[OF this] show ?thesis by simp
  next
    case 2
    from edge_PromptFormat[OF this] show ?thesis by simp
  next
    case 3
    from part_000_PromptFormat[OF this] show ?thesis by simp
  qed
  then show "q = prompt body" and "h = map content (messages body)" by simp_all
next
  fix ev m q tt k ms
  assume "ev \<in> set (fst (handler_chat env pinecone body)) \<union> set (fst (handler_edge env pinecone body))
          \<union> set (fst (handler_part_000 env pinecone body))"
    and "ev = OpenAIStreamCall m q tt k ms"
  then consider "OpenAIStreamCall m q tt k ms \<in> set (fst (handler_edge env pinecone body))"
    | "OpenAIStreamCall m q tt k ms \<in> set (fst (handler_part_000 env pinecone body))"
    using chat_no_OpenAIStreamCall[of m q tt k ms env pinecone body] by blast
  then have "(\<exists>s u. promptQA_format env s (prompt body) (map content (messages body)) u = Inr q)
        \<and> (\<exists>e qt tc. (e = cl100k_base env \<or> codecs env (id' (model body)) = Some e)
              \<and> e q = Inr qt
              \<and> select e (messages body) (tokenLimit (model body)) (int (length qt))
                  = Inr (tc, ms))"
  proof cases
    case 1
    from edge_OpenAIStreamCall[OF this] show ?thesis by blast
  next
    case 2
    from part_000_OpenAIStreamCall[OF this] show ?thesis by blast
  qed
  then show "\<exists>s u. promptQA_format env s (prompt body) (map content (messages body)) u = Inr q"
    and "(\<exists>e qt tc. (e = cl100k_base env \<or> codecs env (id' (model body)) = Some e)
              \<and> e q = Inr qt
              \<and> select e (messages body) (tokenLimit (model body)) (int (length qt))
                  = Inr (tc, ms))"
    by blast+
next
  fix ev c s q ms u
  assume "ev \<in> set (fst (handler_chat env pinecone body)) \<union> set (fst (handler_edge env pinecone body))
          \<union> set (fst (handler_part_000 env pinecone body))"
    and "ev = ChainCall c s q ms u"
  then have "ChainCall c s q ms u \<in> set (fst (handler_chat env pinecone body))"
    using edge_no_ChainCall[of c s q ms u env pinecone body]
      part_000_no_ChainCall[of c s q ms u env pinecone body] by blast
  from chat_ChainCall[OF this]
  show "\<exists>s' u'. promptQA_format env s' (prompt body) (map content (messages body)) u' = Inr q"
    and "(\<exists>e qt tc. (e = cl100k_base env \<or> codecs env (id' (model body)) = Some e)
              \<and> e q = Inr qt
              \<and> select e (messages body) (tokenLimit (model body)) (int (length qt))
                  = Inr (tc, ms))"
    by blast+
qed (rule chat_PromptFormat_limit edge_PromptFormat_limit part_000_PromptFormat_limit)+

text \<open>
  The three handlers under the limit of 1030 tokens: the prompt holds the three turns, the
  selection only the newest ones.
\<close>

theorem prompt_embeds_whole_history_witness:
  "(\<exists>tc ms rest out.
       select sample_encode (messages tight_body) (tokenLimit (model tight_body)) 25 = Inr (tc, ms)
     \<and> handler_chat sample_env True tight_body =
         ([EncodingForModel ''gpt-3.5-turbo'',
           EmbedQuery ''2+2?'',
           GetMatchesFromEmbeddings [4] 3,
           PromptFormat (''alpha'' @ [CHR 0x0A] @ ''beta'') ''2+2?'' [''hello'', ''hi'', ''2+2?'']
             [''a.html'', ''b.html''],
           EncodingFree,
           ChainCall \<lparr> streaming = True, verbose = True, modelName = ''gpt-3.5-turbo-16k'',
                       temperature_option = None \<rparr>
             (''alpha'' @ [CHR 0x0A] @ ''beta'') (''alpha'' @ [CHR 0x0A] @ ''beta2+2?hellohi2+2?'')
             ms [''a.html'', ''b.html'']] @ rest, out))
   \<and> (\<exists>tc ms rest out.
       select sample_encode (messages tight_body) (tokenLimit (model tight_body)) 22 = Inr (tc, ms)
     \<and> handler_edge sample_env True tight_body =
         ([TiktokenNew,
           InquiryChainCall ''2+2?'' [''hello'', ''hi'', ''2+2?''],
           EmbedQuery ''2+2?'',
           GetMatchesFromEmbeddings [4] 3,
           SummarizeLongDocument (''alpha'' @ [CHR 0x0A] @ ''beta'') ''2+2?'',
           PromptFormat ''summary'' ''2+2?'' [''hello'', ''hi'', ''2+2?''] [''a.html'', ''b.html''],
           EncodingFree,
           OpenAIStreamCall (model tight_body) ''summary2+2?hellohi2+2?'' (1/5) ''k'' ms]
          @ rest, out))
   \<and> (\<exists>tc ms rest out.
       select sample_encode (messages tight_body) (tokenLimit (model tight_body)) 22 = Inr (tc, ms)
     \<and> handler_part_000 sample_env True tight_body =
         ([EncodingForModel ''gpt-3.5-turbo'',
           InquiryChainCall ''2+2?'' [''hello'', ''hi'', ''2+2?''],
           EmbedQuery ''2+2?'',
           GetMatchesFromEmbeddings [4] 3,
           SummarizeLongDocument (''alpha'' @ [CHR 0x0A] @ ''beta'') ''2+2?'',
           PromptFormat ''summary'' ''2+2?'' [''hello'', ''hi'', ''2+2?''] [''a.html'', ''b.html''],
           EncodingFree,
           OpenAIStreamCall (model tight_body) ''summary2+2?hellohi2+2?'' (1/5) ''sk'' ms]
          @ rest, out))
   \<and> PromptFormat ''summary'' ''2+2?'' [''hello'', ''hi'', ''2+2?''] [''a.html'', ''b.html'']
       \<in> set (fst (handler_edge sample_env True tight_body))
   \<and> ''2+2?'' = prompt tight_body
   \<and> [''hello'', ''hi'', ''2+2?''] = map content (messages tight_body)
   \<and> PromptFormat ''summary'' ''2+2?'' [''hello'', ''hi'', ''2+2?''] [''a.html'', ''b.html'']
       \<in> set (fst (handler_edge sample_env True
                       (tight_body \<lparr> model := model tight_body \<lparr> tokenLimit := 7 \<rparr> \<rparr>)))"
proof -
  note T = prompt_embeds_whole_history[where env=sample_env and pinecone=True and body=tight_body]
  have c1: "\<exists>tc ms rest out.
       select sample_encode (messages tight_body) (tokenLimit (model tight_body)) 25 = Inr (tc, ms)
     \<and> handler_chat sample_env True tight_body =
         ([EncodingForModel ''gpt-3.5-turbo'',
           EmbedQuery ''2+2?'',
           GetMatchesFromEmbeddings [4] 3,
           PromptFormat (''alpha'' @ [CHR 0x0A] @ ''beta'') ''2+2?'' [''hello'', ''hi'', ''2+2?'']
             [''a.html'', ''b.html''],
           EncodingFree,
           ChainCall \<lparr> streaming = True, verbose = True, modelName = ''gpt-3.5-turbo-16k'',
                       temperature_option = None \<rparr>
             (''alpha'' @ [CHR 0x0A] @ ''beta'') (''alpha'' @ [CHR 0x0A] @ ''beta2+2?hellohi2+2?'')
             ms [''a.html'', ''b.html'']] @ rest, out)"
    using T[where enc=sample_encode and v="[4]" and matches=sample_matches and dt=9
        and p="''alpha'' @ [CHR 0x0A] @ ''beta2+2?hellohi2+2?''"
        and pt="map of_char (''alpha'' @ [CHR 0x0A] @ ''beta2+2?hellohi2+2?'')", THEN conjunct1]
    by (simp add: witness_defs)
  have c2: "\<exists>tc ms rest out.
       select sample_encode (messages tight_body) (tokenLimit (model tight_body)) 22 = Inr (tc, ms)
     \<and> handler_edge sample_env True tight_body =
         ([TiktokenNew,
           InquiryChainCall ''2+2?'' [''hello'', ''hi'', ''2+2?''],
           EmbedQuery ''2+2?'',
           GetMatchesFromEmbeddings [4] 3,
           SummarizeLongDocument (''alpha'' @ [CHR 0x0A] @ ''beta'') ''2+2?'',
           PromptFormat ''summary'' ''2+2?'' [''hello'', ''hi'', ''2+2?''] [''a.html'', ''b.html''],
           EncodingFree,
           OpenAIStreamCall (model tight_body) ''summary2+2?hellohi2+2?'' (1/5) ''k'' ms]
          @ rest, out)"
    using T[where inquiry="''2+2?''" and w="[4]" and found=sample_matches
        and summary="''summary''" and r="''summary2+2?hellohi2+2?''"
        and rt="map of_char ''summary2+2?hellohi2+2?''", THEN conjunct2, THEN conjunct1]
    by (simp add: witness_defs)
  have c3: "\<exists>tc ms rest out.
       select sample_encode (messages tight_body) (tokenLimit (model tight_body)) 22 = Inr (tc, ms)
     \<and> handler_part_000 sample_env True tight_body =
         ([EncodingForModel ''gpt-3.5-turbo'',
           InquiryChainCall ''2+2?'' [''hello'', ''hi'', ''2+2?''],
           EmbedQuery ''2+2?'',
           GetMatchesFromEmbeddings [4] 3,
           SummarizeLongDocument (''alpha'' @ [CHR 0x0A] @ ''beta'') ''2+2?'',
           PromptFormat ''summary'' ''2+2?'' [''hello'', ''hi'', ''2+2?''] [''a.html'', ''b.html''],
           EncodingFree,
           OpenAIStreamCall (model tight_body) ''summary2+2?hellohi2+2?'' (1/5) ''sk'' ms]
          @ rest, out)"
    using T[where enc=sample_encode and inquiry="''2+2?''" and w="[4]" and found=sample_matches
        and summary="''summary''" and r="''summary2+2?hellohi2+2?''"
        and rt="map of_char ''summary2+2?hellohi2+2?''",
        THEN conjunct2, THEN conjunct2, THEN conjunct1]
    by (simp add: witness_defs)
  let ?ev = "PromptFormat ''summary'' ''2+2?'' [''hello'', ''hi'', ''2+2?''] [''a.html'', ''b.html'']"
  have m: "?ev \<in> set (fst (handler_edge sample_env True tight_body))"
    using c2 by auto
  then have u: "?ev \<in> set (fst (handler_chat sample_env True tight_body))
          \<union> set (fst (handler_edge sample_env True tight_body))
          \<union> set (fst (handler_part_000 sample_env True tight_body))" by blast
  note U = T[THEN conjunct2, THEN conjunct2, THEN conjunct2, THEN conjunct1]
  have q: "''2+2?'' = prompt tight_body \<and> [''hello'', ''hi'', ''2+2?''] = map content (messages tight_body)"
    using bspec[OF U u] by blast
  note L = T[where L=7, THEN conjunct2, THEN conjunct2, THEN conjunct2, THEN conjunct2,
      THEN conjunct2, THEN conjunct1]
  have l: "?ev \<in> set (fst (handler_edge sample_env True
                       (tight_body \<lparr> model := model tight_body \<lparr> tokenLimit := 7 \<rparr> \<rparr>)))"
    using L m by blast
  show ?thesis by (intro conjI c1 c2 c3 m q[THEN conjunct1] q[THEN conjunct2] l)
qed

end
